theory Spec2Isabelle
  imports Complex_Main "HOL-Library.Sublist" "HOL-Library.Multiset"
begin

section \<open>Cats Gallery: the filter, render and modal logic of \<open>src/index.js\<close>\<close>

text \<open>
  The gallery is a single JavaScript module working on rows fetched from the \<open>cats\<close>
  table. The embedding follows the module function by function and keeps its names.
  Rows are typed as the schema of the setup guide types them (\<open>id\<close> UUID, \<open>title\<close> and
  \<open>description\<close> TEXT, \<open>image_data\<close> a JSONB array of media objects, \<open>categories\<close>
  TEXT[], \<open>created_at\<close> TIMESTAMPTZ), nullable columns as \<open>option\<close>.
\<close>

subsection \<open>Strings\<close>

text \<open>
  A JavaScript string is a sequence of UTF-16 code units. The model is \<open>string\<close>, one
  \<open>char\<close> per code unit, which covers the code units below 256 (ASCII and Latin-1).
  \<open>String.prototype.toLowerCase\<close> on that range maps \<open>A\<close>..\<open>Z\<close> and the Latin-1 capitals
  \<open>0xC0\<close>..\<open>0xDE\<close> (without the multiplication sign \<open>0xD7\<close>) to the unit 32 above and
  leaves every other unit alone.
\<close>

definition lower_unit :: "char \<Rightarrow> char" where
  "lower_unit c =
     (let n = (of_char c :: nat)
      in if (65 \<le> n \<and> n \<le> 90) \<or> (192 \<le> n \<and> n \<le> 222 \<and> n \<noteq> 215)
         then char_of (n + 32) else c)"

definition toLowerCase :: "string \<Rightarrow> string" where
  "toLowerCase s = map lower_unit s"

text \<open>\<open>s.includes(t)\<close>: \<open>t\<close> occurs in \<open>s\<close> as a contiguous run of code units.\<close>

fun str_includes :: "string \<Rightarrow> string \<Rightarrow> bool" where
  "str_includes [] t = (t = [])"
| "str_includes (x # xs) t = (prefix t (x # xs) \<or> str_includes xs t)"

text \<open>\<open>s.endsWith(t)\<close>; the source never calls it, the specification speaks of it.\<close>

definition endsWith :: "string \<Rightarrow> string \<Rightarrow> bool" where
  "endsWith s t = prefix (rev t) (rev s)"

text \<open>
  \<open>String.prototype.trim\<close> removes white space and line terminators from both ends; below
  256 these are the units 9 to 13, 32 and 160.
\<close>

definition is_space :: "char \<Rightarrow> bool" where
  "is_space c = (let n = (of_char c :: nat) in (9 \<le> n \<and> n \<le> 13) \<or> n = 32 \<or> n = 160)"

definition trim :: "string \<Rightarrow> string" where
  "trim s = rev (dropWhile is_space (rev (dropWhile is_space s)))"

text \<open>
  The cat emoji of the source's literals lies outside that range; it is only ever copied,
  never inspected, and is carried as its four UTF-8 bytes.
\<close>

definition cat_emoji :: string where
  "cat_emoji = [CHR 0xF0, CHR 0x9F, CHR 0x90, CHR 0xB1]"

subsection \<open>Rows and media items\<close>

text \<open>
  A media item is an object of the \<open>image_data\<close> array. The guide documents \<open>url\<close> and
  \<open>type\<close>; the module also reads the optional \<open>title\<close>, \<open>description\<close> and
  \<open>categories\<close>. An absent or \<open>null\<close> property is \<open>None\<close>.
\<close>

record media_item =
  url :: string
  mtype :: string
  mtitle :: "string option"
  mdescription :: "string option"
  mcategories :: "string list option"

text \<open>
  \<open>image_data\<close> and \<open>image_urls\<close> are \<open>None\<close> when the property is absent, \<open>null\<close> or
  not an array (the module tests \<open>x && Array.isArray(x)\<close> each time). \<open>created_at\<close> is
  the instant \<open>new Date(c.created_at)\<close> denotes, in milliseconds (the column arrives as
  an ISO 8601 text, which \<open>Date\<close> parses), \<open>None\<close> when the column is \<open>null\<close>.
\<close>

record cat =
  cat_id :: string
  title :: "string option"
  description :: "string option"
  image_data :: "media_item list option"
  image_urls :: "string list option"
  categories :: "string list option"
  is_featured :: bool
  created_at :: "int option"

text \<open>\<open>x || ''\<close> on an optional string.\<close>

definition or_empty :: "string option \<Rightarrow> string" where
  "or_empty x = (case x of None \<Rightarrow> [] | Some s \<Rightarrow> s)"

subsection \<open>Video inference and the media resolver\<close>

text \<open>
  \<^verbatim>\<open>
  function isVideoUrl(url) {
      if (!url) return false;
      const lower = url.toLowerCase();
      return lower.includes('.mp4') || lower.includes('.webm')
          || lower.includes('.mov') || lower.includes('/video/');
  }
  \<close>
  On a string, \<open>!url\<close> holds exactly for the empty string.
\<close>

definition isVideoUrl :: "string \<Rightarrow> bool" where
  "isVideoUrl u =
     (if u = [] then False
      else let lower = toLowerCase u
           in str_includes lower ''.mp4'' \<or> str_includes lower ''.webm''
              \<or> str_includes lower ''.mov'' \<or> str_includes lower ''/video/'')"

text \<open>
  The specification's wording of the same test: a suffix check against the three
  extensions, or a \<open>/video/\<close> path segment, on the lower-cased URL.
\<close>

definition spec_video_by_suffix :: "string \<Rightarrow> bool" where
  "spec_video_by_suffix u =
     (let lower = toLowerCase u
      in endsWith lower ''.mp4'' \<or> endsWith lower ''.webm''
         \<or> endsWith lower ''.mov'' \<or> str_includes lower ''/video/'')"

text \<open>
  \<^verbatim>\<open>
  function getCatMedia(cat) {
      if (cat.image_data && Array.isArray(cat.image_data) && cat.image_data.length > 0)
          return cat.image_data;
      if (cat.image_urls && Array.isArray(cat.image_urls) && cat.image_urls.length > 0)
          return cat.image_urls.map(url => ({ url, type: isVideoUrl(url) ? 'video' : 'image' }));
      return [];
  }
  \<close>
\<close>

definition legacy_item :: "string \<Rightarrow> media_item" where
  "legacy_item u =
     \<lparr>url = u, mtype = (if isVideoUrl u then ''video'' else ''image''),
      mtitle = None, mdescription = None, mcategories = None\<rparr>"

definition nonempty_array :: "'a list option \<Rightarrow> bool" where
  "nonempty_array x = (case x of None \<Rightarrow> False | Some xs \<Rightarrow> 0 < length xs)"

definition getCatMedia :: "cat \<Rightarrow> media_item list" where
  "getCatMedia c =
     (if nonempty_array (image_data c) then the (image_data c)
      else if nonempty_array (image_urls c) then map legacy_item (the (image_urls c))
      else [])"

subsection \<open>The filter predicates\<close>

text \<open>
  The callback of the category stage of \<open>filterCats\<close>, with \<open>sel\<close> the members of the
  \<open>selectedCategories\<close> set:
  \<^verbatim>\<open>
  const catHasCategories = cat.categories && Array.isArray(cat.categories) &&
      Array.from(selectedCategories).every(c => cat.categories.includes(c));
  const imageHasCategories = cat.image_data && Array.isArray(cat.image_data) &&
      cat.image_data.some(img =>
          img.categories && Array.isArray(img.categories) &&
          Array.from(selectedCategories).every(c => img.categories.includes(c)));
  return catHasCategories || imageHasCategories;
  \<close>
\<close>

definition has_every :: "string list \<Rightarrow> string list option \<Rightarrow> bool" where
  "has_every sel x = (case x of None \<Rightarrow> False | Some cs \<Rightarrow> list_all (\<lambda>c. c \<in> set cs) sel)"

definition catHasCategories :: "string list \<Rightarrow> cat \<Rightarrow> bool" where
  "catHasCategories sel c = has_every sel (categories c)"

definition imageHasCategories :: "string list \<Rightarrow> cat \<Rightarrow> bool" where
  "imageHasCategories sel c =
     (case image_data c of None \<Rightarrow> False
      | Some imgs \<Rightarrow> list_ex (\<lambda>img. has_every sel (mcategories img)) imgs)"

definition category_pred :: "string list \<Rightarrow> cat \<Rightarrow> bool" where
  "category_pred sel c = (catHasCategories sel c \<or> imageHasCategories sel c)"

text \<open>
  The callback of the search stage:
  \<^verbatim>\<open>
  const title = (cat.title || '').toLowerCase();
  const description = (cat.description || '').toLowerCase();
  const imageMatch = cat.image_data && Array.isArray(cat.image_data) &&
      cat.image_data.some(img =>
          (img.title || '').toLowerCase().includes(searchTerm) ||
          (img.description || '').toLowerCase().includes(searchTerm));
  return title.includes(searchTerm) || description.includes(searchTerm) || imageMatch;
  \<close>
\<close>

definition imageMatch :: "string \<Rightarrow> cat \<Rightarrow> bool" where
  "imageMatch searchTerm c =
     (case image_data c of None \<Rightarrow> False
      | Some imgs \<Rightarrow>
          list_ex (\<lambda>img. str_includes (toLowerCase (or_empty (mtitle img))) searchTerm
                        \<or> str_includes (toLowerCase (or_empty (mdescription img))) searchTerm) imgs)"

definition search_pred :: "string \<Rightarrow> cat \<Rightarrow> bool" where
  "search_pred searchTerm c =
     (str_includes (toLowerCase (or_empty (title c))) searchTerm
      \<or> str_includes (toLowerCase (or_empty (description c))) searchTerm
      \<or> imageMatch searchTerm c)"

subsection \<open>Cards\<close>

text \<open>
  The module writes HTML text into regions of the page. The model keeps, for each
  template, the values that fill its holes (before \<open>escapeHtml\<close>), not the markup.

  The only exception the rendering code can raise on typed rows is the \<open>TypeError\<close> of
  \<open>url.toLowerCase()\<close> inside \<open>isVideoUrl\<close>, when it is handed a media object instead of
  a string. That happens in the idiom
  \<^verbatim>\<open>
  const mainUrl = mainMedia.url || mainMedia;
  const isVideo = mainMedia.type === 'video' || isVideoUrl(mainUrl);
  \<close>
  for an item whose \<open>url\<close> is empty and whose \<open>type\<close> is not \<open>'video'\<close>. When the type
  is \<open>'video'\<close> the object itself reaches \<open>escapeHtml\<close>, whose text is
  \<open>[object Object]\<close>.
\<close>

datatype js_error = TypeError

definition url_or_self :: "media_item \<Rightarrow> js_error + string \<times> bool" where
  "url_or_self m =
     (if mtype m = ''video''
      then Inr (if url m = [] then ''[object Object]'' else url m, True)
      else if url m = [] then Inl TypeError
      else Inr (url m, isVideoUrl (url m)))"

text \<open>An item renders when that idiom does not raise on it.\<close>

definition renders :: "media_item \<Rightarrow> bool" where
  "renders m = (url m \<noteq> [] \<or> mtype m = ''video'')"

definition placeholder :: media_item where
  "placeholder =
     \<lparr>url = ''https://via.placeholder.com/400x400?text='' @ cat_emoji, mtype = ''image'',
      mtitle = None, mdescription = None, mcategories = None\<rparr>"

text \<open>\<open>media[i] || media[0] || placeholder\<close> and \<open>media[0] || placeholder\<close>: an index
  outside the array reads \<open>undefined\<close>.\<close>

definition first_or_placeholder :: "media_item list \<Rightarrow> media_item" where
  "first_or_placeholder media = (case media of [] \<Rightarrow> placeholder | m # _ \<Rightarrow> m)"

definition item_or_first :: "media_item list \<Rightarrow> nat \<Rightarrow> media_item" where
  "item_or_first media i = (if i < length media then media ! i else first_or_placeholder media)"

text \<open>\<open>a || b || ''\<close> on optional strings: the first that is present and non-empty.\<close>

definition first_nonempty :: "string option \<Rightarrow> string option \<Rightarrow> string" where
  "first_nonempty a b = (if or_empty a \<noteq> [] then or_empty a else or_empty b)"

text \<open>\<open>description.substring(0, n)\<close> followed by \<open>...\<close> when the text is longer.\<close>

definition cut_text :: "nat \<Rightarrow> string \<Rightarrow> string" where
  "cut_text n d = take n d @ (if n < length d then ''...'' else [])"

record cat_card =
  card_compact :: bool
  card_individual :: bool
  card_cat :: string
  card_img :: "nat option"
  card_src :: string
  card_video :: bool
  card_badge :: "nat option"
  card_title :: string
  card_description :: string
  card_tags :: "string list"
  card_more :: "nat option"

text \<open>The category chips shared by both cards: at most two, then the overflow count.\<close>

definition visibleCats :: "cat \<Rightarrow> string list" where
  "visibleCats c = (case categories c of None \<Rightarrow> [] | Some cs \<Rightarrow> take 2 cs)"

definition hasMore :: "cat \<Rightarrow> nat option" where
  "hasMore c =
     (case categories c of None \<Rightarrow> None
      | Some cs \<Rightarrow> if 2 < length cs then Some (length cs - 2) else None)"

definition renderCatCard :: "cat \<Rightarrow> bool \<Rightarrow> js_error + cat_card" where
  "renderCatCard c compact_flag =
     (let media = getCatMedia c;
          mainMedia = first_or_placeholder media
      in case url_or_self mainMedia of
           Inl e \<Rightarrow> Inl e
         | Inr (mainUrl, isVideo) \<Rightarrow>
             Inr \<lparr>card_compact = compact_flag, card_individual = False,
                  card_cat = cat_id c, card_img = None,
                  card_src = mainUrl, card_video = isVideo,
                  card_badge = (if 1 < length media then Some (length media - 1) else None),
                  card_title = first_nonempty (title c) (mtitle mainMedia),
                  card_description = cut_text 80 (or_empty (description c)),
                  card_tags = visibleCats c, card_more = hasMore c\<rparr>)"

definition renderIndividualCard :: "cat \<Rightarrow> media_item \<Rightarrow> nat \<Rightarrow> js_error + cat_card" where
  "renderIndividualCard c imgData imgIndex =
     (case url_or_self imgData of
        Inl e \<Rightarrow> Inl e
      | Inr (u, isVideo) \<Rightarrow>
          Inr \<lparr>card_compact = False, card_individual = True,
               card_cat = cat_id c, card_img = Some imgIndex,
               card_src = u, card_video = isVideo, card_badge = None,
               card_title = first_nonempty (mtitle imgData) (title c),
               card_description =
                 cut_text 60 (first_nonempty (mdescription imgData) (description c)),
               card_tags = visibleCats c, card_more = hasMore c\<rparr>)"

text \<open>\<open>xs.map(f)\<close> and nested \<open>forEach\<close> with a callback that may throw: the first
  exception ends the loop.\<close>

fun map_throw :: "('a \<Rightarrow> js_error + 'b) \<Rightarrow> 'a list \<Rightarrow> js_error + 'b list" where
  "map_throw f [] = Inr []"
| "map_throw f (x # xs) =
     (case f x of Inl e \<Rightarrow> Inl e
      | Inr y \<Rightarrow> (case map_throw f xs of Inl e \<Rightarrow> Inl e | Inr ys \<Rightarrow> Inr (y # ys)))"

definition individual_cards :: "cat \<Rightarrow> js_error + cat_card list" where
  "individual_cards c =
     map_throw (\<lambda>(idx, imgData). renderIndividualCard c imgData idx)
       (zip [0 ..< length (getCatMedia c)] (getCatMedia c))"

subsection \<open>Page state\<close>

text \<open>
  The module's variables and the page regions it writes. Arrays of rows are JavaScript
  objects with identity: \<open>arrays\<close> is the store of all row arrays allocated so far and a
  reference is an index into it, so that a copy (\<open>[...xs]\<close>, \<open>filter\<close>, \<open>slice\<close>) and an
  update in place (\<open>sort\<close>) are different things. The module never assigns to a property
  of a row or of a media item and never calls a mutating method on a media array, so rows
  are plain values.
\<close>

type_synonym ref = nat

datatype region = Message string string | Cards "cat_card list"

record thumb =
  thumb_src :: string
  thumb_video :: bool
  thumb_active :: bool
  thumb_img :: nat

record modal_content =
  main_src :: string
  main_video :: bool
  main_muted :: bool
  modal_title :: string
  modal_description :: "(string \<times> bool) option"
  modal_added :: "int option"
  modal_categories :: "string list"
  modal_gallery :: "thumb list"

text \<open>A category count is a number, or the text that \<open>+ 1\<close> produces on a non-number.\<close>

datatype count_val = Num nat | Str string

datatype filters = NoCategories string | Checkboxes "(string \<times> count_val \<times> bool) list"

record ui_state =
  arrays :: "cat list list"
  allCats :: ref
  selectedCategories :: "string list"
  allCategoriesWithCounts :: "(string \<times> count_val) list"
  currentViewMode :: string
  searchInput :: string
  catCount :: string
  catsGrid :: region
  recentSection :: string
  recentCats :: region
  popularSection :: string
  popularCats :: region
  categoryFilters :: filters
  catModal_active :: bool
  modalBody :: "modal_content option"
  body_overflow :: string
  history :: "bool list"
  innerWidth :: nat
  startX :: rat
  startY :: rat
  tracking :: bool

text \<open>Reading a reference, and the two ways the module makes a new array.\<close>

definition deref :: "ui_state \<Rightarrow> ref \<Rightarrow> cat list" where
  "deref s r = arrays s ! r"

definition alloc :: "cat list \<Rightarrow> ui_state \<Rightarrow> ref \<times> ui_state" where
  "alloc xs s = (length (arrays s), s\<lparr>arrays := arrays s @ [xs]\<rparr>)"

definition array_filter :: "(cat \<Rightarrow> bool) \<Rightarrow> ref \<Rightarrow> ui_state \<Rightarrow> ref \<times> ui_state" where
  "array_filter p r s = alloc (filter p (deref s r)) s"

text \<open>The store is well formed when \<open>allCats\<close> refers to an allocated array.\<close>

definition store_ok :: "ui_state \<Rightarrow> bool" where
  "store_ok s = (allCats s < length (arrays s))"

text \<open>
  The canonical list is untouched between two states when \<open>allCats\<close> is the same
  reference and the array behind it holds the same rows in the same order.
\<close>

definition rows_untouched :: "ui_state \<Rightarrow> ui_state \<Rightarrow> bool" where
  "rows_untouched s s' = (allCats s' = allCats s \<and> deref s' (allCats s') = deref s (allCats s))"

text \<open>The store grows between two states when every array of the first is still there,
  unchanged, in the second.\<close>

definition grows :: "ui_state \<Rightarrow> ui_state \<Rightarrow> bool" where
  "grows s s' = (allCats s' = allCats s \<and> prefix (arrays s) (arrays s'))"

subsection \<open>The grid\<close>

text \<open>Template literals print a number in decimal.\<close>

definition digit_char :: "nat \<Rightarrow> char" where
  "digit_char d = char_of (d + 48)"

fun string_of_nat :: "nat \<Rightarrow> string" where
  "string_of_nat n =
     (if 10 \<le> n then string_of_nat (n div 10) @ [digit_char (n mod 10)]
      else [digit_char n])"

declare string_of_nat.simps [simp del]

text \<open>
  \<^verbatim>\<open>
  function renderCats(cats) {
      if (currentViewMode === 'batch') {
          catCount.textContent = `${cats.length} cat${cats.length !== 1 ? 's' : ''}`;
          if (cats.length === 0) { catsGrid.innerHTML = '... No cats found'; return; }
          catsGrid.innerHTML = cats.map(cat => renderCatCard(cat)).join('');
      } else {
          let totalImages = 0; let cardsHtml = '';
          cats.forEach(cat => {
              const media = getCatMedia(cat);
              if (media.length > 0)
                  media.forEach((imgData, idx) => {
                      cardsHtml += renderIndividualCard(cat, imgData, idx); totalImages++; });
          });
          catCount.textContent = `${totalImages} photo${totalImages !== 1 ? 's' : ''}`;
          if (totalImages === 0) { catsGrid.innerHTML = '... No photos found'; return; }
          catsGrid.innerHTML = cardsHtml;
      }
      setTimeout(observeVideos, 100);
  }
  \<close>
  The result is the state the call leaves and the exception it ends with, if any. The
  deferred \<open>observeVideos\<close> only registers video elements with an observer and is left
  out.
\<close>

definition count_label :: "nat \<Rightarrow> string \<Rightarrow> string" where
  "count_label n noun = string_of_nat n @ '' '' @ noun @ (if n \<noteq> 1 then ''s'' else [])"

definition renderCats :: "ref \<Rightarrow> ui_state \<Rightarrow> ui_state \<times> js_error option" where
  "renderCats cats s =
     (if currentViewMode s = ''batch'' then
        (let s1 = s\<lparr>catCount := count_label (length (deref s cats)) ''cat''\<rparr>
         in if length (deref s cats) = 0
            then (s1\<lparr>catsGrid := Message ''no-data'' (cat_emoji @ '' No cats found'')\<rparr>, None)
            else (case map_throw (\<lambda>c. renderCatCard c False) (deref s cats) of
                    Inl e \<Rightarrow> (s1, Some e)
                  | Inr cards \<Rightarrow> (s1\<lparr>catsGrid := Cards cards\<rparr>, None)))
      else
        (case map_throw individual_cards (deref s cats) of
           Inl e \<Rightarrow> (s, Some e)
         | Inr cardss \<Rightarrow>
             (let totalImages = length (concat cardss);
                  s1 = s\<lparr>catCount := count_label totalImages ''photo''\<rparr>
              in if totalImages = 0
                 then (s1\<lparr>catsGrid := Message ''no-data'' (cat_emoji @ '' No photos found'')\<rparr>,
                       None)
                 else (s1\<lparr>catsGrid := Cards (concat cardss)\<rparr>, None))))"

subsection \<open>The filter engine\<close>

text \<open>
  \<^verbatim>\<open>
  function filterCats() {
      const searchTerm = searchInput.value.toLowerCase().trim();
      let filtered = allCats;
      if (selectedCategories.size > 0) filtered = filtered.filter(cat => ...);
      if (searchTerm) filtered = filtered.filter(cat => ...);
      renderCats(filtered);
  }
  \<close>
  \<open>filterCats_filtered\<close> is the function up to the value of \<open>filtered\<close> that it hands to
  \<open>renderCats\<close>.
\<close>

definition filterCats_filtered :: "ui_state \<Rightarrow> ref \<times> ui_state" where
  "filterCats_filtered s =
     (let searchTerm = trim (toLowerCase (searchInput s));
          (filtered, s1) =
             (if 0 < length (selectedCategories s)
              then array_filter (category_pred (selectedCategories s)) (allCats s) s
              else (allCats s, s))
      in if searchTerm \<noteq> [] then array_filter (search_pred searchTerm) filtered s1
         else (filtered, s1))"

definition filterCats :: "ui_state \<Rightarrow> ui_state \<times> js_error option" where
  "filterCats s = (let (filtered, s1) = filterCats_filtered s in renderCats filtered s1)"

subsection \<open>The shelves\<close>

text \<open>
  \<open>Array.prototype.sort\<close> is stable and sorts in place; a comparator result of \<open>NaN\<close>
  counts as \<open>0\<close>. For a consistent comparator every stable sort returns the same array;
  the model is insertion sort. With an inconsistent comparator (a \<open>NaN\<close> beside numbers)
  the order an engine produces is its own, and nothing is stated about it here.
\<close>

fun insert_cmp :: "('a \<Rightarrow> 'a \<Rightarrow> int) \<Rightarrow> 'a \<Rightarrow> 'a list \<Rightarrow> 'a list" where
  "insert_cmp cmp x [] = [x]"
| "insert_cmp cmp x (y # ys) = (if cmp x y \<le> 0 then x # y # ys else y # insert_cmp cmp x ys)"

definition sort_cmp :: "('a \<Rightarrow> 'a \<Rightarrow> int) \<Rightarrow> 'a list \<Rightarrow> 'a list" where
  "sort_cmp cmp xs = foldr (insert_cmp cmp) xs []"

definition array_sort :: "(cat \<Rightarrow> cat \<Rightarrow> int) \<Rightarrow> ref \<Rightarrow> ui_state \<Rightarrow> ref \<times> ui_state" where
  "array_sort cmp r s = (r, s\<lparr>arrays := (arrays s)[r := sort_cmp cmp (deref s r)]\<rparr>)"

text \<open>
  \<^verbatim>\<open>
  function renderRecentCats() {
      const oneWeekAgo = new Date();
      oneWeekAgo.setDate(oneWeekAgo.getDate() - 7);
      const recentWithinWeek = [...allCats]
          .filter(c => c.created_at && new Date(c.created_at) >= oneWeekAgo)
          .sort((a, b) => new Date(b.created_at) - new Date(a.created_at))
          .slice(0, 8);
      const recentSection = document.getElementById('recentSection');
      if (recentWithinWeek.length === 0) { recentSection.style.display = 'none'; return; }
      recentSection.style.display = 'block';
      recentCats.innerHTML = recentWithinWeek.map(c => renderCatCard(c, true)).join('');
      setTimeout(observeVideos, 100);
  }
  \<close>
  The instant \<open>oneWeekAgo\<close> (the clock, moved back seven calendar days in the local time
  zone) is a parameter.
\<close>

definition within_week :: "int \<Rightarrow> cat \<Rightarrow> bool" where
  "within_week oneWeekAgo c = (case created_at c of None \<Rightarrow> False | Some t \<Rightarrow> oneWeekAgo \<le> t)"

definition newest_first :: "cat \<Rightarrow> cat \<Rightarrow> int" where
  "newest_first a b =
     (case (created_at b, created_at a) of (Some tb, Some ta) \<Rightarrow> tb - ta | _ \<Rightarrow> 0)"

definition renderRecentCats :: "int \<Rightarrow> ui_state \<Rightarrow> ui_state \<times> js_error option" where
  "renderRecentCats oneWeekAgo s =
     (let (copy, s1) = alloc (deref s (allCats s)) s;
          (kept, s2) = array_filter (within_week oneWeekAgo) copy s1;
          (sorted, s3) = array_sort newest_first kept s2;
          (recentWithinWeek, s4) = alloc (take 8 (deref s3 sorted)) s3
      in if length (deref s4 recentWithinWeek) = 0 then (s4\<lparr>recentSection := ''none''\<rparr>, None)
         else (let s5 = s4\<lparr>recentSection := ''block''\<rparr>
               in case map_throw (\<lambda>c. renderCatCard c True) (deref s4 recentWithinWeek) of
                    Inl e \<Rightarrow> (s5, Some e)
                  | Inr cards \<Rightarrow> (s5\<lparr>recentCats := Cards cards\<rparr>, None)))"

text \<open>
  \<^verbatim>\<open>
  function renderPopularCats() {
      const popular = allCats.filter(c => c.is_featured === true);
      const popularSection = document.getElementById('popularSection');
      if (popular.length === 0) { popularSection.style.display = 'none'; return; }
      popularSection.style.display = 'block';
      popularCats.innerHTML = popular.map(c => renderCatCard(c, true)).join('');
      setTimeout(observeVideos, 100);
  }
  \<close>
\<close>

definition renderPopularCats :: "ui_state \<Rightarrow> ui_state \<times> js_error option" where
  "renderPopularCats s =
     (let (popular, s1) = array_filter is_featured (allCats s) s
      in if length (deref s1 popular) = 0 then (s1\<lparr>popularSection := ''none''\<rparr>, None)
         else (let s2 = s1\<lparr>popularSection := ''block''\<rparr>
               in case map_throw (\<lambda>c. renderCatCard c True) (deref s1 popular) of
                    Inl e \<Rightarrow> (s2, Some e)
                  | Inr cards \<Rightarrow> (s2\<lparr>popularCats := Cards cards\<rparr>, None)))"

subsection \<open>The modal\<close>

text \<open>
  \<open>window.openCatModal(catId, startIndex = 0)\<close>, lines 452 to 522. The row is looked up
  with \<open>allCats.find(c => c.id === catId)\<close>; without a row the function returns at once.
  Otherwise the main medium and the thumbnails are computed (either may raise the
  \<open>TypeError\<close> of the URL idiom), and only then the page is written: the modal body, the
  \<open>active\<close> class, the scroll lock and one \<open>history.pushState({modalOpen: true})\<close>. A
  video is unmuted afterwards. \<open>history\<close> is the stack of the \<open>modalOpen\<close> flags of the
  session history entries, the current entry first.
\<close>

definition gallery :: "media_item list \<Rightarrow> nat \<Rightarrow> js_error + thumb list" where
  "gallery media startIndex =
     (if 1 < length media
      then map_throw
             (\<lambda>(idx, m). case url_or_self m of
                 Inl e \<Rightarrow> Inl e
               | Inr (mUrl, isVid) \<Rightarrow>
                   Inr \<lparr>thumb_src = mUrl, thumb_video = isVid,
                        thumb_active = (idx = startIndex), thumb_img = idx\<rparr>)
             (zip [0 ..< length media] media)
      else Inr [])"

definition cute_cat :: string where
  "cute_cat = cat_emoji @ '' Cute Cat''"

definition title_or_cute :: "string \<Rightarrow> string" where
  "title_or_cute t = (if t \<noteq> [] then t else cute_cat)"

definition openCatModal :: "string \<Rightarrow> nat \<Rightarrow> ui_state \<Rightarrow> ui_state \<times> js_error option" where
  "openCatModal catId startIndex s =
     (case find (\<lambda>c. cat_id c = catId) (deref s (allCats s)) of
        None \<Rightarrow> (s, None)
      | Some c \<Rightarrow>
          (let media = getCatMedia c;
               currentMedia = item_or_first media startIndex
           in case url_or_self currentMedia of
                Inl e \<Rightarrow> (s, Some e)
              | Inr (mainUrl, isVideo) \<Rightarrow>
                  (let displayTitle = first_nonempty (mtitle currentMedia) (title c);
                       displayDesc = first_nonempty (mdescription currentMedia) (description c)
                   in case gallery media startIndex of
                        Inl e \<Rightarrow> (s, Some e)
                      | Inr thumbs \<Rightarrow>
                          (s\<lparr>modalBody := Some
                                \<lparr>main_src = mainUrl, main_video = isVideo, main_muted = False,
                                 modal_title = title_or_cute displayTitle,
                                 modal_description =
                                   (if displayDesc \<noteq> [] then Some (displayDesc, True) else None),
                                 modal_added = created_at c,
                                 modal_categories =
                                   (case categories c of None \<Rightarrow> [] | Some cs \<Rightarrow> cs),
                                 modal_gallery = thumbs\<rparr>,
                              catModal_active := True,
                              body_overflow := ''hidden'',
                              history := True # history s\<rparr>, None))))"

text \<open>
  \<open>window.changeModalMedia(src, thumb, isVideo, catId, imgIndex)\<close>, lines 525 to 567,
  the click handler of a thumbnail; \<open>thumb\<close> is the position of the clicked thumbnail.
  It moves the highlight, rewrites title and description from \<open>media[imgIndex] || {}\<close>
  when the row is found, and replaces the main element. Without a main element
  (\<open>modalBody\<close> never filled) \<open>oldMedia.replaceWith\<close> raises.
\<close>

definition changeModalMedia ::
  "string \<Rightarrow> nat \<Rightarrow> bool \<Rightarrow> string \<Rightarrow> nat \<Rightarrow> ui_state \<Rightarrow> ui_state \<times> js_error option" where
  "changeModalMedia src clicked isVideo catId imgIndex s =
     (case modalBody s of
        None \<Rightarrow> (s, Some TypeError)
      | Some mb \<Rightarrow>
          (let mb1 = mb\<lparr>modal_gallery :=
                         map (\<lambda>t. t\<lparr>thumb_active := (thumb_img t = clicked)\<rparr>) (modal_gallery mb)\<rparr>;
               mb2 =
                 (case find (\<lambda>c. cat_id c = catId) (deref s (allCats s)) of
                    None \<Rightarrow> mb1
                  | Some c \<Rightarrow>
                      (let media = getCatMedia c;
                           t = (if imgIndex < length media then mtitle (media ! imgIndex) else None);
                           d = (if imgIndex < length media then mdescription (media ! imgIndex)
                                else None);
                           displayTitle = first_nonempty t (title c);
                           displayDesc = first_nonempty d (description c)
                       in mb1\<lparr>modal_title := title_or_cute displayTitle,
                              modal_description :=
                                map_option (\<lambda>_. (displayDesc, displayDesc \<noteq> []))
                                  (modal_description mb1)\<rparr>))
           in (s\<lparr>modalBody := Some (mb2\<lparr>main_src := src, main_video := isVideo,
                                         main_muted := False\<rparr>)\<rparr>, None)))"

text \<open>
  \<^verbatim>\<open>
  window.closeModal = function(event) {
      if (event && event.target !== catModal) return;
      if (!catModal.classList.contains('active')) return;
      const modalVideo = document.getElementById('modalMainMedia');
      if (modalVideo && modalVideo.tagName === 'VIDEO') { modalVideo.muted = true; modalVideo.pause(); }
      catModal.classList.remove('active');
      document.body.style.overflow = '';
      if (history.state?.modalOpen) history.back();
  };
  \<close>
  The argument is \<open>None\<close> for a call without an event, and otherwise says whether the
  event's target is the modal backdrop itself.
\<close>

definition closeModal :: "bool option \<Rightarrow> ui_state \<Rightarrow> ui_state" where
  "closeModal event s =
     (if event = Some False then s
      else if \<not> catModal_active s then s
      else s\<lparr>modalBody :=
               map_option (\<lambda>mb. if main_video mb then mb\<lparr>main_muted := True\<rparr> else mb)
                 (modalBody s),
             catModal_active := False,
             body_overflow := [],
             history := (case history s of True # older \<Rightarrow> older | h \<Rightarrow> h)\<rparr>)"

subsection \<open>Numbers\<close>

text \<open>
  A JavaScript number is an IEEE 754 double: a finite value, an infinity or \<open>NaN\<close>. A
  finite double is carried as the rational it denotes (the sign of zero, which no
  comparison sees, is dropped). \<open>fl\<close> rounds a rational to the nearest double, ties to
  the even significand: 53 significant bits, exponents from \<open>-1022\<close> to \<open>1023\<close>, a
  fixed quantum of \<open>2^-1074\<close> below the normal range, and infinity once the rounded
  magnitude reaches \<open>2^1024\<close>.
\<close>

datatype double = Fin rat | PInf | NInf | NaN

text \<open>The number of binary digits of a natural number.\<close>

fun bits :: "nat \<Rightarrow> nat" where
  "bits n = (if n = 0 then 0 else Suc (bits (n div 2)))"

declare bits.simps [simp del]

text \<open>For positive \<open>x\<close>, the exponent \<open>e\<close> with \<open>2^e \<le> x < 2^(e+1)\<close>.\<close>

definition ilog2 :: "rat \<Rightarrow> int" where
  "ilog2 x =
     (if 1 \<le> x then int (bits (nat \<lfloor>x\<rfloor>)) - 1 else - int (bits (nat (\<lceil>1 / x\<rceil> - 1))))"

definition pow2 :: "int \<Rightarrow> rat" where
  "pow2 k = (if 0 \<le> k then 2 ^ nat k else 1 / 2 ^ nat (- k))"

definition round_half_even :: "rat \<Rightarrow> int" where
  "round_half_even y =
     (let f = \<lfloor>y\<rfloor>; r = y - of_int f
      in if r < 1 / 2 then f else if 1 / 2 < r then f + 1 else if even f then f else f + 1)"

definition fl :: "rat \<Rightarrow> double" where
  "fl x =
     (if x = 0 then Fin 0
      else let a = \<bar>x\<bar>;
               e = max (ilog2 a) (- 1022);
               q = pow2 (e - 52);
               m = of_int (round_half_even (a / q)) * q
           in if pow2 1024 \<le> m then (if 0 < x then PInf else NInf)
              else Fin (if 0 < x then m else - m))"

text \<open>
  The operations the swipe handler uses. \<open>-\<close> is only applied to touch coordinates,
  which the platform delivers as finite doubles; \<open>*\<close>, \<open>Math.abs\<close> and \<open>>\<close> are
  given on all doubles.
\<close>

definition js_minus :: "rat \<Rightarrow> rat \<Rightarrow> double" where
  "js_minus a b = fl (a - b)"

definition sign_of :: "double \<Rightarrow> int" where
  "sign_of x = (case x of Fin a \<Rightarrow> sgn \<lfloor>sgn a\<rfloor> | PInf \<Rightarrow> 1 | NInf \<Rightarrow> - 1 | NaN \<Rightarrow> 0)"

definition js_times :: "double \<Rightarrow> double \<Rightarrow> double" where
  "js_times x y =
     (case (x, y) of
        (Fin a, Fin b) \<Rightarrow> fl (a * b)
      | _ \<Rightarrow> if x = NaN \<or> y = NaN \<or> sign_of x * sign_of y = 0 then NaN
             else if 0 < sign_of x * sign_of y then PInf else NInf)"

definition js_abs :: "double \<Rightarrow> double" where
  "js_abs x = (case x of Fin a \<Rightarrow> Fin \<bar>a\<bar> | PInf \<Rightarrow> PInf | NInf \<Rightarrow> PInf | NaN \<Rightarrow> NaN)"

fun js_gt :: "double \<Rightarrow> double \<Rightarrow> bool" where
  "js_gt (Fin a) (Fin b) = (b < a)"
| "js_gt NaN y = False"
| "js_gt x NaN = False"
| "js_gt PInf PInf = False"
| "js_gt PInf y = True"
| "js_gt NInf y = False"
| "js_gt (Fin a) NInf = True"
| "js_gt (Fin a) PInf = False"

subsection \<open>Swipe to close\<close>

text \<open>
  \<^verbatim>\<open>
  catModal.addEventListener('touchstart', (e) => {
      if (e.touches?.length !== 1) return;
      const touch = e.touches[0];
      startX = touch.clientX; startY = touch.clientY; tracking = true;
  });
  catModal.addEventListener('touchend', (e) => {
      if (!tracking || !e.changedTouches?.[0]) return;
      tracking = false;
      const touch = e.changedTouches[0];
      const dx = touch.clientX - startX;
      const dy = touch.clientY - startY;
      const threshold = window.innerWidth * 0.20;
      if (Math.abs(dx) > Math.abs(dy) * 1.5 && dx > threshold) closeModal();
  });
  \<close>
  \<open>clientX\<close>, \<open>clientY\<close>, \<open>startX\<close> and \<open>startY\<close> are finite doubles. The literals
  \<open>0.20\<close> and \<open>1.5\<close> are the doubles nearest to them, and every difference and product
  is rounded.
\<close>

record touch =
  clientX :: rat
  clientY :: rat

definition touchstart :: "touch list \<Rightarrow> ui_state \<Rightarrow> ui_state" where
  "touchstart touches s =
     (if length touches \<noteq> 1 then s
      else s\<lparr>startX := clientX (hd touches), startY := clientY (hd touches), tracking := True\<rparr>)"

definition swipe_threshold :: "nat \<Rightarrow> double" where
  "swipe_threshold width = js_times (fl (of_nat width)) (fl (20 / 100))"

definition swipe_closes :: "nat \<Rightarrow> double \<Rightarrow> double \<Rightarrow> bool" where
  "swipe_closes width dx dy =
     (let threshold = swipe_threshold width
      in js_gt (js_abs dx) (js_times (js_abs dy) (fl (15 / 10))) \<and> js_gt dx threshold)"

definition touchend :: "touch list \<Rightarrow> ui_state \<Rightarrow> ui_state" where
  "touchend changedTouches s =
     (if \<not> tracking s \<or> changedTouches = [] then s
      else (let s1 = s\<lparr>tracking := False\<rparr>;
                dx = js_minus (clientX (hd changedTouches)) (startX s);
                dy = js_minus (clientY (hd changedTouches)) (startY s)
            in if swipe_closes (innerWidth s) dx dy then closeModal None s1 else s1))"

text \<open>
  The specification's wording of the swipe test, on the displacements as numbers: the
  horizontal displacement exceeds a fifth of the width and dominates the vertical one by
  a factor of at least 1.5.
\<close>

definition spec_swipe_closes :: "nat \<Rightarrow> rat \<Rightarrow> rat \<Rightarrow> bool" where
  "spec_swipe_closes width dx dy =
     (dx > of_nat width * (20 / 100) \<and> \<bar>dx\<bar> \<ge> \<bar>dy\<bar> * (15 / 10))"

subsection \<open>The category index\<close>

text \<open>
  \<^verbatim>\<open>
  const categoryCounts = {};
  allCats.forEach(cat => {
      if (cat.categories && Array.isArray(cat.categories))
          cat.categories.forEach(c => { categoryCounts[c] = (categoryCounts[c] || 0) + 1; });
      if (cat.image_data && Array.isArray(cat.image_data))
          cat.image_data.forEach(img => {
              if (img.categories && Array.isArray(img.categories))
                  img.categories.forEach(c => { categoryCounts[c] = (categoryCounts[c] || 0) + 1; });
          });
  });
  allCategoriesWithCounts = Object.entries(categoryCounts)
      .map(([name, count]) => ({ name, count }))
      .sort((a, b) => b.count - a.count);
  \<close>
  \<open>categoryCounts\<close> is an ordinary object: its own properties, in creation order, are
  an association list, and behind them stands \<open>Object.prototype\<close>. Reading
  \<open>categoryCounts[c]\<close> for a name the object does not own yet finds the inherited
  property when \<open>c\<close> names one: a built-in function, or for \<open>__proto__\<close> the prototype
  object. Both are truthy, and \<open>+ 1\<close> on them concatenates text (the text of a built-in
  function is written here as V8 prints it). Writing \<open>categoryCounts[c]\<close> creates or
  updates the own property, except for \<open>__proto__\<close>, whose inherited setter ignores a
  value that is not an object.
\<close>

definition prototype_functions :: "string list" where
  "prototype_functions =
     [''constructor'', ''__defineGetter__'', ''__defineSetter__'', ''hasOwnProperty'',
      ''__lookupGetter__'', ''__lookupSetter__'', ''isPrototypeOf'', ''propertyIsEnumerable'',
      ''toString'', ''valueOf'', ''toLocaleString'']"

definition function_text :: "string \<Rightarrow> string" where
  "function_text c =
     ''function '' @ (if c = ''constructor'' then ''Object'' else c) @ ''() { [native code] }''"

definition get_or_zero_plus_1 :: "(string \<times> count_val) list \<Rightarrow> string \<Rightarrow> count_val" where
  "get_or_zero_plus_1 obj c =
     (case map_of obj c of
        Some (Num n) \<Rightarrow> Num (n + 1)
      | Some (Str t) \<Rightarrow> (if t = [] then Num 1 else Str (t @ ''1''))
      | None \<Rightarrow>
          if c \<in> set prototype_functions then Str (function_text c @ ''1'')
          else if c = ''__proto__'' then Str ''[object Object]1''
          else Num 1)"

fun put :: "(string \<times> count_val) list \<Rightarrow> string \<Rightarrow> count_val \<Rightarrow> (string \<times> count_val) list" where
  "put [] k v = [(k, v)]"
| "put ((k', v') # obj) k v = (if k' = k then (k, v) # obj else (k', v') # put obj k v)"

definition count1 :: "(string \<times> count_val) list \<Rightarrow> string \<Rightarrow> (string \<times> count_val) list" where
  "count1 obj c = (if c = ''__proto__'' then obj else put obj c (get_or_zero_plus_1 obj c))"

definition count_all :: "(string \<times> count_val) list \<Rightarrow> string list option \<Rightarrow> (string \<times> count_val) list" where
  "count_all obj x = (case x of None \<Rightarrow> obj | Some cs \<Rightarrow> foldl count1 obj cs)"

definition count_cat :: "(string \<times> count_val) list \<Rightarrow> cat \<Rightarrow> (string \<times> count_val) list" where
  "count_cat obj c =
     (let obj1 = count_all obj (categories c)
      in case image_data c of
           None \<Rightarrow> obj1
         | Some imgs \<Rightarrow> foldl (\<lambda>acc img. count_all acc (mcategories img)) obj1 imgs)"

definition categoryCounts :: "cat list \<Rightarrow> (string \<times> count_val) list" where
  "categoryCounts cats = foldl count_cat [] cats"

text \<open>
  \<open>Object.entries\<close> lists the own properties whose names are array indices (canonical
  decimal numerals below \<open>2^32 - 1\<close>) first, in ascending numeric order, then the others
  in creation order.
\<close>

definition digits_value :: "string \<Rightarrow> nat" where
  "digits_value k = foldl (\<lambda>a ch. 10 * a + (of_char ch - 48)) 0 k"

definition is_digit :: "char \<Rightarrow> bool" where
  "is_digit ch = (48 \<le> (of_char ch :: nat) \<and> (of_char ch :: nat) \<le> 57)"

definition is_array_index :: "string \<Rightarrow> bool" where
  "is_array_index k =
     (k \<noteq> [] \<and> list_all is_digit k \<and> (k = ''0'' \<or> hd k \<noteq> CHR ''0'')
      \<and> digits_value k < 4294967295)"

definition object_entries :: "(string \<times> 'v) list \<Rightarrow> (string \<times> 'v) list" where
  "object_entries obj =
     sort_key (\<lambda>(k, v). digits_value k) (filter (\<lambda>(k, v). is_array_index k) obj)
     @ filter (\<lambda>(k, v). \<not> is_array_index k) obj"

text \<open>\<open>b.count - a.count\<close>; with a text operand the difference is \<open>NaN\<close>, which the sort
  reads as \<open>0\<close>.\<close>

definition by_count_desc :: "string \<times> count_val \<Rightarrow> string \<times> count_val \<Rightarrow> int" where
  "by_count_desc a b =
     (case (snd b, snd a) of (Num y, Num x) \<Rightarrow> int y - int x | _ \<Rightarrow> 0)"

definition renderCategories :: "(string \<times> count_val) list \<Rightarrow> ui_state \<Rightarrow> ui_state" where
  "renderCategories cs s =
     s\<lparr>categoryFilters :=
         Checkboxes (map (\<lambda>(name, count). (name, count, name \<in> set (selectedCategories s))) cs)\<rparr>"

text \<open>
  \<open>loadCategories\<close>, lines 119 to 157: the index is stored in
  \<open>allCategoriesWithCounts\<close> and rendered as the check list, or as a notice when it is
  empty. Nothing in its \<open>try\<close> block raises on typed rows.
\<close>

definition loadCategories :: "ui_state \<Rightarrow> ui_state" where
  "loadCategories s =
     (let index = sort_cmp by_count_desc (object_entries (categoryCounts (deref s (allCats s))));
          s1 = s\<lparr>allCategoriesWithCounts := index\<rparr>
      in if length index = 0
         then s1\<lparr>categoryFilters := NoCategories ''No categories available''\<rparr>
         else renderCategories index s1)"

text \<open>What the index should hold for a name: the number of its occurrences among the
  record-level tags and the tags of every media item.\<close>

definition tags_of :: "cat \<Rightarrow> string list" where
  "tags_of c =
     (case categories c of None \<Rightarrow> [] | Some cs \<Rightarrow> cs)
     @ (case image_data c of
          None \<Rightarrow> []
        | Some imgs \<Rightarrow> concat (map (\<lambda>img. case mcategories img of None \<Rightarrow> [] | Some cs \<Rightarrow> cs) imgs))"

definition occurrences :: "cat list \<Rightarrow> string \<Rightarrow> nat" where
  "occurrences cats name = count_list (concat (map tags_of cats)) name"

text \<open>
  A name is safe when \<open>Object.prototype\<close> has no property of that name. \<open>counted\<close>
  says that an object holds, for exactly the names of a tag list, the number of their
  occurrences in it.
\<close>

definition safe_name :: "string \<Rightarrow> bool" where
  "safe_name c = (c \<notin> set prototype_functions \<and> c \<noteq> ''__proto__'')"

definition counted :: "(string \<times> count_val) list \<Rightarrow> string list \<Rightarrow> bool" where
  "counted obj tags =
     (distinct (map fst obj)
      \<and> (\<forall>k. map_of obj k = (if k \<in> set tags then Some (Num (count_list tags k)) else None)))"

text \<open>Two index entries are in order when both counts are numbers and the first is not
  the smaller.\<close>

definition more_first :: "string \<times> count_val \<Rightarrow> string \<times> count_val \<Rightarrow> bool" where
  "more_first a b = (\<exists>m n. snd a = Num m \<and> snd b = Num n \<and> n \<le> m)"

subsection \<open>Sample rows\<close>

text \<open>
  Three rows with one, three and two media items: \<open>tabby\<close> with a structured list,
  \<open>kitten\<close> with tagged items, \<open>legacy\<close> with the old flat URL list. \<open>torn\<close> is a row
  whose only media item has lost its URL. \<open>page\<close> is the page after the three rows were
  loaded, nothing selected, in grouped mode, on a viewport 100 pixels wide.
\<close>

definition image_item :: "string \<Rightarrow> media_item" where
  "image_item u =
     \<lparr>url = u, mtype = ''image'', mtitle = None, mdescription = None, mcategories = None\<rparr>"

definition tabby :: cat where
  "tabby =
     \<lparr>cat_id = ''c1'', title = Some ''Tabby'', description = Some ''A tabby cat'',
      image_data = Some [image_item ''https://cdn/a.jpg''], image_urls = None,
      categories = Some [''cute'', ''tabby''], is_featured = True, created_at = Some 1000\<rparr>"

definition kitten :: cat where
  "kitten =
     \<lparr>cat_id = ''c2'', title = None, description = None,
      image_data = Some [(image_item ''https://cdn/b.jpg'')\<lparr>mcategories := Some [''cute'', ''tiny'']\<rparr>,
                         (image_item ''https://cdn/video/c'')\<lparr>mtype := ''video'', mtitle := Some ''Play''\<rparr>,
                         image_item ''https://cdn/d.jpg''],
      image_urls = None,
      categories = Some [''tiny''], is_featured = False, created_at = Some 2000\<rparr>"

definition legacy :: cat where
  "legacy =
     \<lparr>cat_id = ''c3'', title = Some ''Old'', description = None,
      image_data = None, image_urls = Some [''https://cdn/e.mp4'', ''https://cdn/f.png''],
      categories = None, is_featured = False, created_at = None\<rparr>"

definition torn :: cat where
  "torn =
     \<lparr>cat_id = ''c4'', title = None, description = None,
      image_data = Some [image_item []], image_urls = None,
      categories = None, is_featured = False, created_at = None\<rparr>"

definition page :: ui_state where
  "page =
     \<lparr>arrays = [[tabby, kitten, legacy]], allCats = 0, selectedCategories = [],
      allCategoriesWithCounts = [], currentViewMode = ''batch'', searchInput = [],
      catCount = [], catsGrid = Message ''loading'' [], recentSection = [],
      recentCats = Message ''loading'' [], popularSection = [],
      popularCats = Message ''loading'' [], categoryFilters = NoCategories [],
      catModal_active = False, modalBody = None, body_overflow = [], history = [False],
      innerWidth = 100, startX = 0, startY = 0, tracking = False\<rparr>"

text \<open>\<open>mute\<close> is a row whose only media item has no URL either, but is typed as a video.\<close>

definition mute :: cat where
  "mute = torn\<lparr>cat_id := ''c5'', image_data := Some [(image_item [])\<lparr>mtype := ''video''\<rparr>]\<rparr>"

text \<open>\<open>torn_page\<close> holds the torn row alone, in per-item mode.\<close>

definition torn_page :: ui_state where
  "torn_page = page\<lparr>arrays := [[torn]], currentViewMode := ''individual''\<rparr>"

text \<open>A touch point.\<close>

definition finger :: "rat \<Rightarrow> rat \<Rightarrow> touch" where
  "finger x y = \<lparr>clientX = x, clientY = y\<rparr>"

text \<open>\<open>constructor_page\<close> holds one row tagged with the category \<open>constructor\<close>.\<close>

definition constructor_page :: ui_state where
  "constructor_page = page\<lparr>arrays := [[tabby\<lparr>categories := Some [''constructor'']\<rparr>]]\<rparr>"

section \<open>Properties\<close>

subsection \<open>Strings\<close>

lemma str_includes_iff: "str_includes s t \<longleftrightarrow> (\<exists>a b. s = a @ t @ b)"
proof (induction s)
  case Nil
  then show ?case by auto
next
  case (Cons x xs)
  show ?case
  proof
    assume "str_includes (x # xs) t"
    then consider "prefix t (x # xs)" | "str_includes xs t" by auto
    then show "\<exists>a b. x # xs = a @ t @ b"
    proof cases
      case 1
      then obtain b where "x # xs = t @ b" by (auto simp: prefix_def)
      then have "x # xs = [] @ t @ b" by simp
      then show ?thesis by blast
    next
      case 2
      with Cons.IH obtain a b where "xs = a @ t @ b" by blast
      then have "x # xs = (x # a) @ t @ b" by simp
      then show ?thesis by blast
    qed
  next
    assume "\<exists>a b. x # xs = a @ t @ b"
    then obtain a b where ab: "x # xs = a @ t @ b" by blast
    show "str_includes (x # xs) t"
    proof (cases a)
      case Nil
      with ab have "prefix t (x # xs)" by (simp add: prefix_def)
      then show ?thesis by simp
    next
      case (Cons y ys)
      with ab have "xs = ys @ t @ b" by simp
      with Cons.IH have "str_includes xs t" by blast
      then show ?thesis by simp
    qed
  qed
qed

lemma endsWith_iff: "endsWith s t \<longleftrightarrow> (\<exists>a. s = a @ t)"
  by (simp add: endsWith_def flip: suffix_to_prefix) (auto simp: suffix_def)

lemmas unit_eval = toLowerCase_def lower_unit_def char_of_def bit_Suc_0_iff

subsection \<open>Video inference\<close>

text \<open>
  C3, as the code has it. \<open>isVideoUrl\<close> answers video exactly for a non-empty URL whose
  lower-cased form contains \<open>.mp4\<close>, \<open>.webm\<close>, \<open>.mov\<close> or \<open>/video/\<close> anywhere, not only
  at its end; \<open>https://x/VIDEO/a.MP4\<close> is a video.
\<close>

theorem isVideoUrl_contains:
  "(isVideoUrl u \<longleftrightarrow>
      u \<noteq> [] \<and>
      ((\<exists>a b. toLowerCase u = a @ ''.mp4'' @ b) \<or> (\<exists>a b. toLowerCase u = a @ ''.webm'' @ b)
       \<or> (\<exists>a b. toLowerCase u = a @ ''.mov'' @ b) \<or> (\<exists>a b. toLowerCase u = a @ ''/video/'' @ b)))
   \<and> isVideoUrl ''https://x/VIDEO/a.MP4''"
proof
  show "isVideoUrl u \<longleftrightarrow>
      u \<noteq> [] \<and>
      ((\<exists>a b. toLowerCase u = a @ ''.mp4'' @ b) \<or> (\<exists>a b. toLowerCase u = a @ ''.webm'' @ b)
       \<or> (\<exists>a b. toLowerCase u = a @ ''.mov'' @ b) \<or> (\<exists>a b. toLowerCase u = a @ ''/video/'' @ b))"
    unfolding isVideoUrl_def Let_def str_includes_iff by simp
  show "isVideoUrl ''https://x/VIDEO/a.MP4''"
    by (simp add: isVideoUrl_def unit_eval)
qed

theorem isVideoUrl_contains_witness:
  "isVideoUrl ''https://cdn/clip.webm?width=300'' \<and> \<not> isVideoUrl ''https://cdn/cat.png''"
proof -
  have "isVideoUrl ''https://cdn/clip.webm?width=300''"
    by (simp add: isVideoUrl_def unit_eval)
  moreover have "\<not> isVideoUrl ''https://cdn/cat.png''"
  proof
    assume "isVideoUrl ''https://cdn/cat.png''"
    then have
      "(\<exists>a b. toLowerCase ''https://cdn/cat.png'' = a @ ''.mp4'' @ b)
       \<or> (\<exists>a b. toLowerCase ''https://cdn/cat.png'' = a @ ''.webm'' @ b)
       \<or> (\<exists>a b. toLowerCase ''https://cdn/cat.png'' = a @ ''.mov'' @ b)
       \<or> (\<exists>a b. toLowerCase ''https://cdn/cat.png'' = a @ ''/video/'' @ b)"
      using isVideoUrl_contains [of "''https://cdn/cat.png''"] by blast
    then show False
      unfolding str_includes_iff [symmetric] by (simp add: unit_eval)
  qed
  ultimately show ?thesis by blast
qed

text \<open>
  C3, as the specification words it, fails: a URL that carries \<open>.mp4\<close> before a query
  string is inferred as video although it neither ends with one of the extensions nor has
  a \<open>/video/\<close> segment.
\<close>

theorem isVideoUrl_suffix_counterexample:
  "isVideoUrl ''https://x/a.mp4?dl=1'' \<and> \<not> spec_video_by_suffix ''https://x/a.mp4?dl=1''"
  by (simp add: isVideoUrl_def spec_video_by_suffix_def endsWith_def unit_eval)

subsection \<open>The media resolver\<close>

text \<open>
  C5. \<open>getCatMedia\<close> is a function of the row alone and is defined on every row. A
  non-empty structured list is returned as it is; otherwise a non-empty legacy list is
  mapped URL by URL to \<open>{url, type}\<close> with the type from \<open>isVideoUrl\<close>; otherwise the
  result is empty.
\<close>

theorem getCatMedia_resolves:
  "(\<forall>ms. image_data c = Some ms \<and> ms \<noteq> [] \<longrightarrow> getCatMedia c = ms)
   \<and> (\<forall>us. (image_data c = None \<or> image_data c = Some []) \<and> image_urls c = Some us \<and> us \<noteq> []
         \<longrightarrow> getCatMedia c =
             map (\<lambda>u. \<lparr>url = u, mtype = (if isVideoUrl u then ''video'' else ''image''),
                       mtitle = None, mdescription = None, mcategories = None\<rparr>) us)
   \<and> ((image_data c = None \<or> image_data c = Some []) \<and> (image_urls c = None \<or> image_urls c = Some [])
         \<longrightarrow> getCatMedia c = [])"
  by (auto simp: getCatMedia_def nonempty_array_def legacy_item_def)

theorem getCatMedia_resolves_witness:
  "getCatMedia tabby = [image_item ''https://cdn/a.jpg'']
   \<and> getCatMedia legacy =
       [\<lparr>url = ''https://cdn/e.mp4'', mtype = ''video'', mtitle = None, mdescription = None,
          mcategories = None\<rparr>,
        \<lparr>url = ''https://cdn/f.png'', mtype = ''image'', mtitle = None, mdescription = None,
          mcategories = None\<rparr>]
   \<and> getCatMedia (legacy\<lparr>image_data := Some [], image_urls := Some []\<rparr>) = []"
proof -
  have v: "isVideoUrl ''https://cdn/e.mp4''" "\<not> isVideoUrl ''https://cdn/f.png''"
    by (simp_all add: isVideoUrl_def unit_eval)
  show ?thesis
    using getCatMedia_resolves [of tabby] getCatMedia_resolves [of legacy]
      getCatMedia_resolves [of "legacy\<lparr>image_data := Some [], image_urls := Some []\<rparr>"]
    by (simp add: tabby_def legacy_def v)
qed

subsection \<open>The filter engine\<close>

lemma has_every_iff: "has_every sel x \<longleftrightarrow> (\<exists>cs. x = Some cs \<and> set sel \<subseteq> set cs)"
  by (cases x) (auto simp: has_every_def list_all_iff)

lemma category_pred_iff:
  "category_pred sel c \<longleftrightarrow>
     (\<exists>cs. categories c = Some cs \<and> set sel \<subseteq> set cs)
     \<or> (\<exists>imgs img cs. image_data c = Some imgs \<and> img \<in> set imgs
            \<and> mcategories img = Some cs \<and> set sel \<subseteq> set cs)"
  unfolding category_pred_def catHasCategories_def imageHasCategories_def has_every_iff
  by (cases "image_data c") (auto simp: list_ex_iff)

lemma filterCats_filtered_deref:
  assumes "filterCats_filtered s = (r, s')"
  shows "deref s' r =
     (let searchTerm = trim (toLowerCase (searchInput s));
          xs = (if selectedCategories s \<noteq> [] then filter (category_pred (selectedCategories s)) (deref s (allCats s)) else deref s (allCats s))
      in if searchTerm \<noteq> [] then filter (search_pred searchTerm) xs else xs)"
  using assms
  by (auto simp: filterCats_filtered_def Let_def array_filter_def alloc_def deref_def nth_append split: if_splits prod.splits)

text \<open>
  C1. With a non-empty selection, every row that \<open>filterCats\<close> hands to the renderer,
  whatever the search term, carries all the selected categories in its own
  \<open>categories\<close>, or has a media item in \<open>image_data\<close> whose \<open>categories\<close> carry them
  all.
\<close>

theorem filterCats_category_AND:
  assumes "selectedCategories s \<noteq> []"
    and "filterCats_filtered s = (filtered, s1)"
    and "c \<in> set (deref s1 filtered)"
  shows "(\<exists>cs. categories c = Some cs \<and> set (selectedCategories s) \<subseteq> set cs)
     \<or> (\<exists>imgs img cs. image_data c = Some imgs \<and> img \<in> set imgs
            \<and> mcategories img = Some cs \<and> set (selectedCategories s) \<subseteq> set cs)"
proof -
  from assms have "category_pred (selectedCategories s) c"
    by (auto simp: filterCats_filtered_deref Let_def split: if_splits)
  then show ?thesis by (simp only: category_pred_iff)
qed

lemma page_cute_tiny:
  "filter (category_pred [''cute'', ''tiny'']) [tabby, kitten, legacy] = [kitten]"
  by (simp add: category_pred_def catHasCategories_def imageHasCategories_def has_every_def
      tabby_def kitten_def legacy_def image_item_def)

theorem filterCats_category_AND_witness:
  "\<exists>filtered s1.
     filterCats_filtered (page\<lparr>selectedCategories := [''cute'', ''tiny''], searchInput := ''  ''\<rparr>) = (filtered, s1)
     \<and> deref s1 filtered = [kitten]
     \<and> ((\<exists>cs. categories kitten = Some cs \<and> set [''cute'', ''tiny''] \<subseteq> set cs)
       \<or> (\<exists>imgs img cs. image_data kitten = Some imgs \<and> img \<in> set imgs
            \<and> mcategories img = Some cs \<and> set [''cute'', ''tiny''] \<subseteq> set cs))"
proof -
  let ?s = "page\<lparr>selectedCategories := [''cute'', ''tiny''], searchInput := ''  ''\<rparr>"
  obtain filtered s1 where f: "filterCats_filtered ?s = (filtered, s1)"
    by (cases "filterCats_filtered ?s")
  have t: "trim (toLowerCase ''  '') = []"
    by (simp add: trim_def is_space_def unit_eval)
  have d: "deref s1 filtered = [kitten]"
    using filterCats_filtered_deref [OF f] page_cute_tiny
    by (simp add: t) (simp add: page_def deref_def)
  have "kitten \<in> set (deref s1 filtered)" by (simp add: d)
  from filterCats_category_AND [OF _ f this] f d show ?thesis by simp
qed

lemma lower_unit_space: "is_space ch \<Longrightarrow> lower_unit ch = ch"
  by (auto simp: is_space_def lower_unit_def Let_def)

lemma trim_blank:
  assumes "\<forall>ch \<in> set v. is_space ch"
  shows "trim (toLowerCase v) = []"
proof -
  from assms have a: "toLowerCase v = v"
    by (simp add: toLowerCase_def lower_unit_space map_idI)
  from assms have b: "dropWhile is_space v = []"
    by (simp add: dropWhile_eq_Nil_conv)
  show ?thesis unfolding trim_def a b by simp
qed

text \<open>
  C2. With nothing selected and an empty or blank search box, \<open>filterCats\<close> hands
  \<open>allCats\<close> itself to the renderer, and the store is as before.
\<close>

theorem filterCats_no_filters:
  assumes "selectedCategories s = []"
    and "\<forall>ch \<in> set (searchInput s). is_space ch"
  shows "filterCats_filtered s = (allCats s, s) \<and> filterCats s = renderCats (allCats s) s"
  using assms by (simp add: filterCats_def filterCats_filtered_def trim_blank)

theorem filterCats_no_filters_witness:
  "filterCats_filtered (page\<lparr>searchInput := '' ''\<rparr>) = (0, page\<lparr>searchInput := '' ''\<rparr>)
   \<and> deref (page\<lparr>searchInput := '' ''\<rparr>) 0 = [tabby, kitten, legacy]
   \<and> filterCats_filtered page = (0, page)"
  using filterCats_no_filters [of "page\<lparr>searchInput := '' ''\<rparr>"] filterCats_no_filters [of page]
  by (simp add: page_def is_space_def deref_def)

subsection \<open>The modal\<close>

text \<open>
  C8. \<open>openCatModal\<close> with an id that no row of \<open>allCats\<close> has returns with the page as
  it was: the modal stays closed, its body is not written, no history entry is pushed.
\<close>

theorem openCatModal_unknown_id:
  assumes "\<forall>c \<in> set (deref s (allCats s)). cat_id c \<noteq> catId"
  shows "openCatModal catId startIndex s = (s, None)"
proof -
  from assms have "find (\<lambda>c. cat_id c = catId) (deref s (allCats s)) = None"
    by (simp add: find_None_iff)
  then show ?thesis by (simp add: openCatModal_def)
qed

theorem openCatModal_unknown_id_witness:
  "openCatModal ''nonexistent'' 0 page = (page, None)
   \<and> \<not> catModal_active page \<and> modalBody page = None \<and> history page = [False]"
  using openCatModal_unknown_id [of page "''nonexistent''" 0]
  by (simp add: page_def deref_def tabby_def kitten_def legacy_def)

subsection \<open>Cards that render\<close>

lemma url_or_self_renders:
  "renders m \<Longrightarrow>
     url_or_self m = Inr (if url m = [] then ''[object Object]'' else url m,
                          mtype m = ''video'' \<or> isVideoUrl (url m))"
  by (auto simp: url_or_self_def renders_def)

lemma map_throw_Inr:
  assumes "\<forall>x \<in> set xs. f x = Inr (g x)"
  shows "map_throw f xs = Inr (map g xs)"
  using assms by (induction xs) simp_all

lemma gallery_ok:
  assumes "\<forall>m \<in> set media. renders m"
  shows "\<exists>thumbs. gallery media startIndex = Inr thumbs"
proof (cases "1 < length media")
  case True
  let ?f = "\<lambda>(idx, m). case url_or_self m of
                 Inl e \<Rightarrow> Inl e
               | Inr (mUrl, isVid) \<Rightarrow>
                   Inr \<lparr>thumb_src = mUrl, thumb_video = isVid,
                        thumb_active = (idx = startIndex), thumb_img = idx\<rparr>"
  let ?g = "\<lambda>(idx, m). \<lparr>thumb_src = (if url m = [] then ''[object Object]'' else url m),
                          thumb_video = (mtype m = ''video'' \<or> isVideoUrl (url m)),
                          thumb_active = (idx = startIndex), thumb_img = idx\<rparr>"
  have "\<forall>p \<in> set (zip [0 ..< length media] media). ?f p = Inr (?g p)"
    using assms by (auto simp: url_or_self_renders dest: set_zip_rightD)
  then have "map_throw ?f (zip [0 ..< length media] media)
               = Inr (map ?g (zip [0 ..< length media] media))"
    by (rule map_throw_Inr)
  with True show ?thesis
    unfolding gallery_def by simp
next
  case False
  then show ?thesis by (simp add: gallery_def)
qed

lemma first_or_placeholder_renders:
  assumes "\<forall>m \<in> set media. renders m"
  shows "renders (first_or_placeholder media)"
  using assms by (cases media) (simp_all add: first_or_placeholder_def placeholder_def renders_def)

lemma placeholder_image: "mtype placeholder \<noteq> ''video'' \<and> \<not> isVideoUrl (url placeholder)"
  by (simp add: placeholder_def isVideoUrl_def cat_emoji_def unit_eval)

lemma item_or_first_beyond:
  "length media \<le> startIndex \<Longrightarrow> item_or_first media startIndex = first_or_placeholder media"
  by (simp add: item_or_first_def)

subsection \<open>The modal, beyond the last index\<close>

text \<open>
  The fallback itself. For a row of \<open>allCats\<close> whose media items all render,
  \<open>openCatModal\<close> with an index at or beyond the length of the resolved media list
  completes without an exception and opens the modal: body written, \<open>active\<close> set,
  scrolling locked, one history entry pushed. The main element shows the first media
  item, or the placeholder image when the list is empty.
\<close>

lemma openCatModal_index_fallback:
  assumes "find (\<lambda>c. cat_id c = catId) (deref s (allCats s)) = Some c"
    and "length (getCatMedia c) \<le> startIndex"
    and "\<forall>m \<in> set (getCatMedia c). renders m"
  shows "\<exists>mb. openCatModal catId startIndex s =
            (s\<lparr>modalBody := Some mb, catModal_active := True, body_overflow := ''hidden'',
               history := True # history s\<rparr>, None)
          \<and> main_src mb =
              (case getCatMedia c of [] \<Rightarrow> url placeholder
               | m # ms \<Rightarrow> if url m = [] then ''[object Object]'' else url m)
          \<and> (getCatMedia c = [] \<longrightarrow> \<not> main_video mb)"
proof -
  let ?shown = "first_or_placeholder (getCatMedia c)"
  let ?src = "if url ?shown = [] then ''[object Object]'' else url ?shown"
  have i: "item_or_first (getCatMedia c) startIndex = ?shown"
    using assms(2) by (rule item_or_first_beyond)
  have a: "url_or_self ?shown = Inr (?src, mtype ?shown = ''video'' \<or> isVideoUrl (url ?shown))"
    using first_or_placeholder_renders [OF assms(3)] by (rule url_or_self_renders)
  from gallery_ok [OF assms(3)] obtain thumbs
    where b: "gallery (getCatMedia c) startIndex = Inr thumbs" by blast
  have c: "?src = (case getCatMedia c of [] \<Rightarrow> url placeholder
                   | m # ms \<Rightarrow> if url m = [] then ''[object Object]'' else url m)"
    by (simp add: first_or_placeholder_def placeholder_def split: list.splits)
  let ?mb = "\<lparr>main_src = ?src,
              main_video = (mtype ?shown = ''video'' \<or> isVideoUrl (url ?shown)),
              main_muted = False,
              modal_title = title_or_cute (first_nonempty (mtitle ?shown) (title c)),
              modal_description =
                (if first_nonempty (mdescription ?shown) (description c) \<noteq> []
                 then Some (first_nonempty (mdescription ?shown) (description c), True) else None),
              modal_added = created_at c,
              modal_categories = (case categories c of None \<Rightarrow> [] | Some cs \<Rightarrow> cs),
              modal_gallery = thumbs\<rparr>"
  have "openCatModal catId startIndex s =
          (s\<lparr>modalBody := Some ?mb, catModal_active := True, body_overflow := ''hidden'',
             history := True # history s\<rparr>, None)"
    unfolding openCatModal_def assms(1) by (simp add: Let_def i a b)
  moreover have "main_src ?mb = (case getCatMedia c of [] \<Rightarrow> url placeholder
                   | m # ms \<Rightarrow> if url m = [] then ''[object Object]'' else url m)"
    using c by simp
  moreover have "getCatMedia c = [] \<longrightarrow> \<not> main_video ?mb"
    by (simp add: first_or_placeholder_def placeholder_image)
  ultimately show ?thesis by blast
qed

lemma openCatModal_index_fallback_samples:
  "(\<exists>mb. openCatModal ''c2'' 7 page =
           (page\<lparr>modalBody := Some mb, catModal_active := True, body_overflow := ''hidden'',
                 history := [True, False]\<rparr>, None)
         \<and> main_src mb = ''https://cdn/b.jpg'')
   \<and> (\<exists>mb. openCatModal ''c3'' 0 (page\<lparr>arrays := [[legacy\<lparr>image_urls := None\<rparr>]]\<rparr>) =
           (page\<lparr>arrays := [[legacy\<lparr>image_urls := None\<rparr>]], modalBody := Some mb,
                 catModal_active := True, body_overflow := ''hidden'',
                 history := [True, False]\<rparr>, None)
         \<and> main_src mb = url placeholder \<and> \<not> main_video mb)
   \<and> (\<exists>mb. openCatModal ''c5'' 1 (page\<lparr>arrays := [[mute]]\<rparr>) =
           (page\<lparr>arrays := [[mute]], modalBody := Some mb,
                 catModal_active := True, body_overflow := ''hidden'',
                 history := [True, False]\<rparr>, None)
         \<and> main_src mb = ''[object Object]'')"
proof -
  have "find (\<lambda>c. cat_id c = ''c2'') (deref page (allCats page)) = Some kitten"
    by (simp add: page_def deref_def tabby_def kitten_def)
  moreover have "length (getCatMedia kitten) \<le> 7" "\<forall>m \<in> set (getCatMedia kitten). renders m"
    "getCatMedia kitten \<noteq> []" "url (hd (getCatMedia kitten)) = ''https://cdn/b.jpg''"
    by (simp_all add: getCatMedia_def nonempty_array_def kitten_def image_item_def renders_def)
  ultimately have 1: "\<exists>mb. openCatModal ''c2'' 7 page =
           (page\<lparr>modalBody := Some mb, catModal_active := True, body_overflow := ''hidden'',
                 history := [True, False]\<rparr>, None)
         \<and> main_src mb = ''https://cdn/b.jpg''"
    using openCatModal_index_fallback [of "''c2''" page kitten 7]
    by (cases "getCatMedia kitten") (simp_all add: page_def)
  let ?p = "page\<lparr>arrays := [[legacy\<lparr>image_urls := None\<rparr>]]\<rparr>"
  have "find (\<lambda>c. cat_id c = ''c3'') (deref ?p (allCats ?p)) = Some (legacy\<lparr>image_urls := None\<rparr>)"
    by (simp add: page_def deref_def legacy_def)
  moreover have "getCatMedia (legacy\<lparr>image_urls := None\<rparr>) = []"
    by (simp add: getCatMedia_def nonempty_array_def legacy_def)
  ultimately have 2: "\<exists>mb. openCatModal ''c3'' 0 ?p =
           (?p\<lparr>modalBody := Some mb, catModal_active := True, body_overflow := ''hidden'',
                 history := [True, False]\<rparr>, None)
         \<and> main_src mb = url placeholder \<and> \<not> main_video mb"
    using openCatModal_index_fallback [of "''c3''" ?p "legacy\<lparr>image_urls := None\<rparr>" 0]
    by (simp add: page_def)
  let ?q = "page\<lparr>arrays := [[mute]]\<rparr>"
  have "find (\<lambda>c. cat_id c = ''c5'') (deref ?q (allCats ?q)) = Some mute"
    by (simp add: page_def deref_def mute_def torn_def)
  moreover have "getCatMedia mute = [(image_item [])\<lparr>mtype := ''video''\<rparr>]"
    by (simp add: mute_def torn_def getCatMedia_def nonempty_array_def)
  ultimately have 3: "\<exists>mb. openCatModal ''c5'' 1 ?q =
           (?q\<lparr>modalBody := Some mb, catModal_active := True, body_overflow := ''hidden'',
                 history := [True, False]\<rparr>, None)
         \<and> main_src mb = ''[object Object]''"
    using openCatModal_index_fallback [of "''c5''" ?q mute 1]
    by (simp add: page_def renders_def image_item_def)
  from 1 2 3 show ?thesis by blast
qed


subsection \<open>The count label\<close>

lemma map_throw_length: "map_throw f xs = Inr ys \<Longrightarrow> length ys = length xs"
  by (induction xs arbitrary: ys) (auto split: sum.splits)

lemma individual_cards_ok:
  assumes "\<forall>m \<in> set (getCatMedia c). renders m"
  shows "\<exists>cards. individual_cards c = Inr cards \<and> length cards = length (getCatMedia c)"
proof -
  let ?g = "\<lambda>(idx, m). projr (renderIndividualCard c m idx)"
  have "\<forall>p \<in> set (zip [0 ..< length (getCatMedia c)] (getCatMedia c)).
          (\<lambda>(idx, imgData). renderIndividualCard c imgData idx) p = Inr (?g p)"
    using assms by (auto simp: renderIndividualCard_def url_or_self_renders dest: set_zip_rightD)
  then have "individual_cards c = Inr (map ?g (zip [0 ..< length (getCatMedia c)] (getCatMedia c)))"
    unfolding individual_cards_def by (rule map_throw_Inr)
  then show ?thesis by simp
qed

lemma all_individual_cards_ok:
  assumes "\<forall>c \<in> set xs. \<forall>m \<in> set (getCatMedia c). renders m"
  shows "\<exists>cardss. map_throw individual_cards xs = Inr cardss
           \<and> length (concat cardss) = sum_list (map (\<lambda>c. length (getCatMedia c)) xs)"
  using assms
proof (induction xs)
  case Nil
  then show ?case by simp
next
  case (Cons x xs)
  then obtain cardss where a: "map_throw individual_cards xs = Inr cardss"
    and b: "length (concat cardss) = sum_list (map (\<lambda>c. length (getCatMedia c)) xs)"
    by auto
  from Cons.prems obtain cards where c: "individual_cards x = Inr cards"
    and d: "length cards = length (getCatMedia x)"
    using individual_cards_ok [of x] by auto
  show ?case by (simp add: a b c d)
qed

lemma count_label_text:
  "count_label n noun = string_of_nat n @ (if n = 1 then '' '' @ noun else '' '' @ noun @ ''s'')"
  by (simp add: count_label_def)

lemma catCount_batch:
  "currentViewMode s = ''batch'' \<Longrightarrow>
     catCount (fst (renderCats cats s)) = count_label (length (deref s cats)) ''cat''"
  by (simp add: renderCats_def Let_def split: sum.splits)

lemma catCount_individual:
  assumes "currentViewMode s \<noteq> ''batch''"
    and "\<forall>c \<in> set (deref s cats). \<forall>m \<in> set (getCatMedia c). renders m"
  shows "snd (renderCats cats s) = None
     \<and> catCount (fst (renderCats cats s)) =
         count_label (sum_list (map (\<lambda>c. length (getCatMedia c)) (deref s cats))) ''photo''"
proof -
  from all_individual_cards_ok [OF assms(2)] obtain cardss
    where a: "map_throw individual_cards (deref s cats) = Inr cardss"
      and b: "length (concat cardss) = sum_list (map (\<lambda>c. length (getCatMedia c)) (deref s cats))"
    by blast
  show ?thesis
    using assms(1) b by (simp add: renderCats_def a Let_def del: length_concat)
qed

text \<open>
  The label where it is written. In grouped mode \<open>renderCats\<close> writes the number of rows
  with \<open>cat\<close>, or \<open>cats\<close> unless the number is 1, whatever the rows. In per-item mode,
  when every media item of the rows renders, it completes and writes the total number of
  resolved media items with \<open>photo\<close>, or \<open>photos\<close> unless the number is 1.
\<close>

lemma renderCats_count_label:
  "(currentViewMode s = ''batch'' \<longrightarrow>
      catCount (fst (renderCats cats s)) =
        string_of_nat (length (deref s cats))
        @ (if length (deref s cats) = 1 then '' cat'' else '' cats''))
   \<and> (currentViewMode s \<noteq> ''batch''
        \<and> (\<forall>c \<in> set (deref s cats). \<forall>m \<in> set (getCatMedia c). renders m) \<longrightarrow>
      snd (renderCats cats s) = None
      \<and> catCount (fst (renderCats cats s)) =
          string_of_nat (sum_list (map (\<lambda>c. length (getCatMedia c)) (deref s cats)))
          @ (if sum_list (map (\<lambda>c. length (getCatMedia c)) (deref s cats)) = 1
             then '' photo'' else '' photos''))"
  using catCount_batch [of s cats] catCount_individual [of s cats]
  by (simp add: count_label_text)

lemma string_of_digit: "n < 10 \<Longrightarrow> string_of_nat n = [digit_char n]"
  by (subst string_of_nat.simps) simp

lemma sample_media_counts:
  "map (\<lambda>c. length (getCatMedia c)) [tabby, kitten, legacy] = [1, 3, 2]"
  by (simp add: getCatMedia_def nonempty_array_def tabby_def kitten_def legacy_def)

lemma sample_renders:
  "\<forall>c \<in> set [tabby, kitten, legacy]. \<forall>m \<in> set (getCatMedia c). renders m"
  by (simp add: getCatMedia_def nonempty_array_def tabby_def kitten_def legacy_def
      image_item_def legacy_item_def renders_def)

lemma renderCats_count_label_samples:
  "catCount (fst (renderCats 0 page)) = ''3 cats''
   \<and> catCount (fst (renderCats 0 (page\<lparr>currentViewMode := ''individual''\<rparr>))) = ''6 photos''
   \<and> snd (renderCats 0 (page\<lparr>currentViewMode := ''individual''\<rparr>)) = None
   \<and> catCount (fst (renderCats 0 (torn_page\<lparr>arrays := [[mute]]\<rparr>))) = ''1 photo''
   \<and> catCount (fst (renderCats 0 (torn_page\<lparr>currentViewMode := ''batch''\<rparr>))) = ''1 cat''"
proof -
  have d: "deref page 0 = [tabby, kitten, legacy]"
    "deref (page\<lparr>currentViewMode := ''individual''\<rparr>) 0 = [tabby, kitten, legacy]"
    "deref (torn_page\<lparr>arrays := [[mute]]\<rparr>) 0 = [mute]"
    "deref (torn_page\<lparr>currentViewMode := ''batch''\<rparr>) 0 = [torn]"
    by (simp_all add: page_def torn_page_def deref_def)
  have m: "currentViewMode page = ''batch''"
    "currentViewMode (page\<lparr>currentViewMode := ''individual''\<rparr>) \<noteq> ''batch''"
    "currentViewMode (torn_page\<lparr>arrays := [[mute]]\<rparr>) \<noteq> ''batch''"
    "currentViewMode (torn_page\<lparr>currentViewMode := ''batch''\<rparr>) = ''batch''"
    "currentViewMode torn_page \<noteq> ''batch''"
    by (simp_all add: page_def torn_page_def)
  have n: "string_of_nat 3 = ''3''" "string_of_nat 6 = ''6''" "string_of_nat 1 = ''1''"
    by (simp_all add: string_of_digit digit_char_def char_of_def bit_Suc_0_iff)
  from n(1) have n3: "string_of_nat (Suc (Suc (Suc 0))) = ''3''"
    by (simp add: numeral_3_eq_3)
  from n(3) have n1: "string_of_nat (Suc 0) = ''1''" by simp
  have u: "getCatMedia mute = [(image_item [])\<lparr>mtype := ''video''\<rparr>]"
    by (simp add: mute_def torn_def getCatMedia_def nonempty_array_def)
  show ?thesis
    using renderCats_count_label [of page 0]
      renderCats_count_label [of "page\<lparr>currentViewMode := ''individual''\<rparr>" 0]
      renderCats_count_label [of "torn_page\<lparr>arrays := [[mute]]\<rparr>" 0]
      renderCats_count_label [of "torn_page\<lparr>currentViewMode := ''batch''\<rparr>" 0]
      sample_renders
    unfolding d m sample_media_counts by (simp add: m n n3 n1 u renders_def)
qed

text \<open>
  C7 fails on the code. In per-item mode, on a list of one row with one media item, the
  claim promises the label \<open>1 photo\<close>. The item of \<open>torn\<close> has an empty URL and is not
  typed as a video: \<open>imgData.url || imgData\<close> hands the item itself to \<open>isVideoUrl\<close>,
  whose \<open>url.toLowerCase\<close> raises while the cards are built, before the label is
  written, and the label keeps its old text.
\<close>

theorem renderCats_torn_raises:
  "currentViewMode torn_page \<noteq> ''batch''
   \<and> sum_list (map (\<lambda>c. length (getCatMedia c)) (deref torn_page 0)) = 1
   \<and> renderCats 0 torn_page = (torn_page, Some TypeError)
   \<and> catCount torn_page = []"
  by (simp add: torn_page_def page_def deref_def torn_def getCatMedia_def nonempty_array_def
      image_item_def renderCats_def individual_cards_def renderIndividualCard_def url_or_self_def)

subsection \<open>The canonical list is never written\<close>

lemma grows_untouched: "store_ok s \<Longrightarrow> grows s s' \<Longrightarrow> rows_untouched s s'"
  by (auto simp: store_ok_def grows_def rows_untouched_def deref_def prefix_def nth_append)

lemma grows_refl: "grows s s"
  by (simp add: grows_def)

lemma grows_trans: "grows s s1 \<Longrightarrow> grows s1 s2 \<Longrightarrow> grows s s2"
  by (auto simp: grows_def)

lemma grows_alloc: "alloc xs s = (r, s') \<Longrightarrow> grows s s'"
  by (auto simp: alloc_def grows_def)

lemma grows_array_filter: "array_filter p r0 s = (r, s') \<Longrightarrow> grows s s'"
  by (auto simp: array_filter_def dest: grows_alloc)

text \<open>Sorting in place leaves the older arrays alone when the sorted array is a younger one.\<close>

lemma grows_array_sort:
  assumes "grows s s1" and "length (arrays s) \<le> r0" and "array_sort cmp r0 s1 = (r, s')"
  shows "grows s s'"
proof -
  from assms(1) obtain zs where zs: "arrays s1 = arrays s @ zs" and a: "allCats s1 = allCats s"
    by (auto simp: grows_def prefix_def)
  from assms(3) have "arrays s' = (arrays s1)[r0 := sort_cmp cmp (deref s1 r0)]"
    and "allCats s' = allCats s1"
    by (auto simp: array_sort_def)
  with zs a assms(2) show ?thesis
    by (simp add: grows_def list_update_append)
qed

lemma renderCats_arrays:
  "arrays (fst (renderCats cats s)) = arrays s \<and> allCats (fst (renderCats cats s)) = allCats s"
  by (simp add: renderCats_def Let_def split: sum.splits)

lemma grows_renderCats: "grows s (fst (renderCats cats s))"
  by (simp add: grows_def renderCats_arrays)

lemma grows_filterCats_filtered: "filterCats_filtered s = (r, s') \<Longrightarrow> grows s s'"
  by (auto simp: filterCats_filtered_def Let_def grows_refl split: if_splits prod.splits
      dest!: grows_array_filter intro: grows_trans)

lemma grows_filterCats: "grows s (fst (filterCats s))"
proof -
  obtain r s1 where f: "filterCats_filtered s = (r, s1)"
    by (cases "filterCats_filtered s")
  then have "grows s s1" by (rule grows_filterCats_filtered)
  moreover have "grows s1 (fst (renderCats r s1))" by (rule grows_renderCats)
  ultimately show ?thesis
    by (simp add: filterCats_def f grows_trans)
qed

lemma grows_renderRecentCats: "grows s (fst (renderRecentCats oneWeekAgo s))"
proof -
  obtain copy s1 where 1: "alloc (deref s (allCats s)) s = (copy, s1)"
    by (cases "alloc (deref s (allCats s)) s")
  obtain kept s2 where 2: "array_filter (within_week oneWeekAgo) copy s1 = (kept, s2)"
    by (cases "array_filter (within_week oneWeekAgo) copy s1")
  obtain sorted s3 where 3: "array_sort newest_first kept s2 = (sorted, s3)"
    by (cases "array_sort newest_first kept s2")
  obtain recent s4 where 4: "alloc (take 8 (deref s3 sorted)) s3 = (recent, s4)"
    by (cases "alloc (take 8 (deref s3 sorted)) s3")
  have g1: "grows s s1" using 1 by (rule grows_alloc)
  have g2: "grows s s2" using g1 2 by (blast intro: grows_trans grows_array_filter)
  have k: "length (arrays s) \<le> kept"
    using 1 2 by (auto simp: alloc_def array_filter_def)
  have g3: "grows s s3" using g2 k 3 by (rule grows_array_sort)
  have g4: "grows s s4" using g3 4 by (blast intro: grows_trans grows_alloc)
  have "grows s4 (fst (renderRecentCats oneWeekAgo s))"
    by (simp add: renderRecentCats_def 1 2 3 4 grows_def Let_def split: sum.splits)
  with g4 show ?thesis by (rule grows_trans)
qed

lemma grows_renderPopularCats: "grows s (fst (renderPopularCats s))"
proof -
  obtain popular s1 where 1: "array_filter is_featured (allCats s) s = (popular, s1)"
    by (cases "array_filter is_featured (allCats s) s")
  then have "grows s s1" by (rule grows_array_filter)
  moreover have "grows s1 (fst (renderPopularCats s))"
    by (simp add: renderPopularCats_def 1 grows_def Let_def split: sum.splits)
  ultimately show ?thesis by (rule grows_trans)
qed

lemma grows_openCatModal: "grows s (fst (openCatModal catId startIndex s))"
  by (simp add: openCatModal_def grows_def Let_def split: option.splits sum.splits prod.splits)

lemma grows_changeModalMedia: "grows s (fst (changeModalMedia src clicked isVideo catId imgIndex s))"
  by (simp add: changeModalMedia_def grows_def Let_def split: option.splits)

lemma renderRecentCats_arrays:
  "arrays (fst (renderRecentCats w s)) =
     arrays s @ [deref s (allCats s),
                 sort_cmp newest_first (filter (within_week w) (deref s (allCats s))),
                 take 8 (sort_cmp newest_first (filter (within_week w) (deref s (allCats s))))]"
  by (simp add: renderRecentCats_def alloc_def array_filter_def array_sort_def deref_def Let_def
      nth_append list_update_append split: sum.splits)

lemma sample_recent:
  "sort_cmp newest_first (filter (within_week 0) [tabby, kitten, legacy]) = [kitten, tabby]"
  by (simp add: sort_cmp_def within_week_def newest_first_def tabby_def kitten_def legacy_def)

text \<open>
  C9. No view operation writes the canonical list: after \<open>filterCats\<close>, \<open>renderCats\<close>,
  \<open>renderRecentCats\<close> (which sorts a fresh copy in place), \<open>renderPopularCats\<close>,
  \<open>openCatModal\<close> or \<open>changeModalMedia\<close>, whether the call completes or raises,
  \<open>allCats\<close> is the same array with the same rows in the same order. Rows and media
  items are values: no statement of the module assigns to one.
\<close>

theorem rows_untouched_by_views:
  assumes "store_ok s"
  shows "rows_untouched s (fst (filterCats s))
     \<and> rows_untouched s (fst (renderCats cats s))
     \<and> rows_untouched s (fst (renderRecentCats oneWeekAgo s))
     \<and> rows_untouched s (fst (renderPopularCats s))
     \<and> rows_untouched s (fst (openCatModal catId startIndex s))
     \<and> rows_untouched s (fst (changeModalMedia src clicked isVideo catId imgIndex s))"
  using assms
  by (simp add: grows_untouched grows_filterCats grows_renderCats grows_renderRecentCats
      grows_renderPopularCats grows_openCatModal grows_changeModalMedia)

theorem rows_untouched_by_views_witness:
  "store_ok page
   \<and> rows_untouched page (fst (renderRecentCats 0 page))
   \<and> deref (fst (renderRecentCats 0 page)) 0 = [tabby, kitten, legacy]
   \<and> deref (fst (renderRecentCats 0 page)) 2 = [kitten, tabby]
   \<and> rows_untouched page (fst (filterCats page))
   \<and> rows_untouched page (fst (openCatModal ''c2'' 1 page))"
proof -
  have ok: "store_ok page" by (simp add: store_ok_def page_def)
  have d: "deref page (allCats page) = [tabby, kitten, legacy]" "arrays page = [[tabby, kitten, legacy]]"
    by (simp_all add: page_def deref_def)
  have a: "arrays (fst (renderRecentCats 0 page)) =
             [[tabby, kitten, legacy], [tabby, kitten, legacy], [kitten, tabby], [kitten, tabby]]"
    unfolding renderRecentCats_arrays d sample_recent by simp
  from rows_untouched_by_views [OF ok, where cats = 0 and oneWeekAgo = 0 and catId = "''c2''"
      and startIndex = 1 and src = "[]" and clicked = 0 and isVideo = False and imgIndex = 0]
  show ?thesis
    by (simp add: ok deref_def a)
qed

text \<open>The store does tell a sort in place from a sort of a copy.\<close>

lemma array_sort_in_place_mutates:
  "\<not> rows_untouched (page\<lparr>arrays := [[tabby, kitten]]\<rparr>)
       (snd (array_sort newest_first 0 (page\<lparr>arrays := [[tabby, kitten]]\<rparr>)))"
  by (simp add: rows_untouched_def array_sort_def deref_def page_def sort_cmp_def newest_first_def
      tabby_def kitten_def)

subsection \<open>The category index\<close>

lemma map_fst_put:
  "map fst (put obj k v) = (if k \<in> fst ` set obj then map fst obj else map fst obj @ [k])"
  by (induction obj) (force+)

lemma map_of_put: "map_of (put obj k v) = (map_of obj)(k \<mapsto> v)"
  by (induction obj) (auto)

lemma distinct_put: "distinct (map fst obj) \<Longrightarrow> distinct (map fst (put obj k v))"
  by (simp add: map_fst_put)

lemma counted_count1:
  assumes "safe_name c" and "counted obj tags"
  shows "counted (count1 obj c) (tags @ [c])"
proof -
  from assms(2) have d: "distinct (map fst obj)"
    and m: "\<And>k. map_of obj k = (if k \<in> set tags then Some (Num (count_list tags k)) else None)"
    by (simp_all add: counted_def)
  have v: "get_or_zero_plus_1 obj c = Num (count_list tags c + 1)"
    using assms(1) by (simp add: get_or_zero_plus_1_def m safe_name_def)
  have "count1 obj c = put obj c (Num (count_list tags c + 1))"
    using assms(1) by (simp add: count1_def v safe_name_def)
  then show ?thesis
    using d by (auto simp: counted_def map_of_put distinct_put m)
qed

lemma counted_foldl:
  assumes "\<forall>c \<in> set cs. safe_name c" and "counted obj tags"
  shows "counted (foldl count1 obj cs) (tags @ cs)"
  using assms
proof (induction cs arbitrary: obj tags)
  case Nil
  then show ?case by simp
next
  case (Cons c cs)
  then have "counted (count1 obj c) (tags @ [c])" by (simp add: counted_count1)
  with Cons.IH [of "count1 obj c" "tags @ [c]"] Cons.prems(1)
  show ?case by simp
qed

lemma counted_count_all:
  assumes "\<forall>c \<in> set (case x of None \<Rightarrow> [] | Some cs \<Rightarrow> cs). safe_name c" and "counted obj tags"
  shows "counted (count_all obj x) (tags @ (case x of None \<Rightarrow> [] | Some cs \<Rightarrow> cs))"
  using assms by (cases x) (simp_all add: count_all_def counted_foldl)

lemma counted_images:
  assumes "\<forall>c \<in> set (concat (map (\<lambda>img. case mcategories img of None \<Rightarrow> [] | Some cs \<Rightarrow> cs) imgs)). safe_name c"
    and "counted obj tags"
  shows "counted (foldl (\<lambda>acc img. count_all acc (mcategories img)) obj imgs)
           (tags @ concat (map (\<lambda>img. case mcategories img of None \<Rightarrow> [] | Some cs \<Rightarrow> cs) imgs))"
  using assms
proof (induction imgs arbitrary: obj tags)
  case Nil
  then show ?case by simp
next
  case (Cons img imgs)
  let ?t = "case mcategories img of None \<Rightarrow> [] | Some cs \<Rightarrow> cs"
  from Cons.prems have "counted (count_all obj (mcategories img)) (tags @ ?t)"
    by (intro counted_count_all) auto
  with Cons.IH [of "count_all obj (mcategories img)" "tags @ ?t"] Cons.prems(1)
  show ?case by simp
qed

lemma counted_count_cat:
  assumes "\<forall>c \<in> set (tags_of row). safe_name c" and "counted obj tags"
  shows "counted (count_cat obj row) (tags @ tags_of row)"
proof -
  let ?own = "case categories row of None \<Rightarrow> [] | Some cs \<Rightarrow> cs"
  from assms have 1: "counted (count_all obj (categories row)) (tags @ ?own)"
    by (intro counted_count_all) (auto simp: tags_of_def)
  show ?thesis
  proof (cases "image_data row")
    case None
    with 1 show ?thesis by (simp add: count_cat_def tags_of_def)
  next
    case (Some imgs)
    with assms(1) have "\<forall>c \<in> set (concat (map (\<lambda>img. case mcategories img of None \<Rightarrow> [] | Some cs \<Rightarrow> cs) imgs)). safe_name c"
      by (auto simp: tags_of_def)
    from counted_images [OF this 1] Some show ?thesis
      by (simp add: count_cat_def tags_of_def)
  qed
qed

lemma counted_rows:
  assumes "\<forall>c \<in> set (concat (map tags_of rows)). safe_name c" and "counted obj tags"
  shows "counted (foldl count_cat obj rows) (tags @ concat (map tags_of rows))"
  using assms
proof (induction rows arbitrary: obj tags)
  case Nil
  then show ?case by simp
next
  case (Cons row rows)
  from Cons.prems have "counted (count_cat obj row) (tags @ tags_of row)"
    by (intro counted_count_cat) auto
  with Cons.IH [of "count_cat obj row" "tags @ tags_of row"] Cons.prems(1)
  show ?case by simp
qed

lemma counted_categoryCounts:
  assumes "\<forall>c \<in> set (concat (map tags_of rows)). safe_name c"
  shows "counted (categoryCounts rows) (concat (map tags_of rows))"
  using counted_rows [OF assms, of "[]" "[]"] by (simp add: categoryCounts_def counted_def)


lemma mset_object_entries: "mset (object_entries obj) = mset obj"
  by (simp add: object_entries_def)

lemma mset_insert_cmp: "mset (insert_cmp cmp x xs) = add_mset x (mset xs)"
  by (induction xs) simp_all

lemma mset_sort_cmp: "mset (sort_cmp cmp xs) = mset xs"
  by (induction xs) (simp_all add: sort_cmp_def mset_insert_cmp)

lemma by_count_desc_Num:
  "snd a = Num m \<Longrightarrow> snd b = Num n \<Longrightarrow> by_count_desc a b \<le> 0 \<longleftrightarrow> n \<le> m"
  by (simp add: by_count_desc_def)

lemma sorted_insert_cmp:
  assumes "\<exists>n. snd x = Num n" and "\<forall>y \<in> set xs. \<exists>n. snd y = Num n"
    and "sorted_wrt more_first xs"
  shows "sorted_wrt more_first (insert_cmp by_count_desc x xs)"
  using assms
proof (induction xs)
  case Nil
  then show ?case by simp
next
  case (Cons y ys)
  from Cons.prems obtain m n where x: "snd x = Num m" and y: "snd y = Num n" by auto
  show ?case
  proof (cases "by_count_desc x y \<le> 0")
    case True
    with x y have "n \<le> m" by (simp add: by_count_desc_Num)
    with x y Cons.prems(3) have "\<forall>z \<in> set (y # ys). more_first x z"
      by (fastforce simp: more_first_def)
    with True Cons.prems(3) show ?thesis by simp
  next
    case False
    with x y have "m \<le> n" by (simp add: by_count_desc_Num)
    with x y have "more_first y x" by (simp add: more_first_def)
    moreover have "sorted_wrt more_first (insert_cmp by_count_desc x ys)"
      using Cons by simp
    moreover have "set (insert_cmp by_count_desc x ys) = insert x (set ys)"
      using mset_insert_cmp [of by_count_desc x ys] by (metis set_mset_add_mset_insert set_mset_mset)
    ultimately show ?thesis
      using False Cons.prems(3) by simp
  qed
qed

lemma sorted_sort_cmp:
  assumes "\<forall>y \<in> set xs. \<exists>n. snd y = Num n"
  shows "sorted_wrt more_first (sort_cmp by_count_desc xs)"
  using assms
proof (induction xs)
  case Nil
  then show ?case by (simp add: sort_cmp_def)
next
  case (Cons x xs)
  have "set (sort_cmp by_count_desc xs) = set xs"
    using mset_sort_cmp [of by_count_desc xs] by (metis set_mset_mset)
  with Cons have "sorted_wrt more_first (insert_cmp by_count_desc x (sort_cmp by_count_desc xs))"
    by (intro sorted_insert_cmp) simp_all
  then show ?case by (simp add: sort_cmp_def)
qed

text \<open>
  For rows whose category names are all safe, the index has one entry per distinct
  name, each with the number of occurrences of the name among the record-level and the
  item-level tags, in non-increasing order of count.
\<close>

lemma category_index_safe:
  assumes "\<forall>c \<in> set (concat (map tags_of rows)). safe_name c"
  shows "distinct (map fst (sort_cmp by_count_desc (object_entries (categoryCounts rows))))
     \<and> fst ` set (sort_cmp by_count_desc (object_entries (categoryCounts rows)))
         = set (concat (map tags_of rows))
     \<and> (\<forall>(name, count) \<in> set (sort_cmp by_count_desc (object_entries (categoryCounts rows))).
           count = Num (occurrences rows name))
     \<and> sorted_wrt more_first (sort_cmp by_count_desc (object_entries (categoryCounts rows)))"
proof -
  let ?obj = "categoryCounts rows"
  let ?tags = "concat (map tags_of rows)"
  let ?index = "sort_cmp by_count_desc (object_entries ?obj)"
  from counted_categoryCounts [OF assms] have d: "distinct (map fst ?obj)"
    and m: "\<And>k. map_of ?obj k = (if k \<in> set ?tags then Some (Num (count_list ?tags k)) else None)"
    by (simp_all add: counted_def)
  have p: "mset ?index = mset ?obj"
    by (simp add: mset_sort_cmp mset_object_entries)
  then have s: "set ?index = set ?obj" by (rule mset_eq_setD)
  from p have "mset (map fst ?index) = mset (map fst ?obj)" by simp
  with d have 1: "distinct (map fst ?index)" by (metis mset_eq_imp_distinct_iff)
  have v: "v = Num (count_list ?tags k) \<and> k \<in> set ?tags" if "(k, v) \<in> set ?obj" for k v
  proof -
    from that d have "map_of ?obj k = Some v" by simp
    then show ?thesis by (simp add: m split: if_splits)
  qed
  have 2: "fst ` set ?index = set ?tags"
  proof
    show "fst ` set ?index \<subseteq> set ?tags" using v by (auto simp: s)
    show "set ?tags \<subseteq> fst ` set ?index"
    proof
      fix k assume "k \<in> set ?tags"
      then have "map_of ?obj k = Some (Num (count_list ?tags k))" by (simp add: m)
      then have "(k, Num (count_list ?tags k)) \<in> set ?obj" by (rule map_of_SomeD)
      then show "k \<in> fst ` set ?index" by (force simp: s)
    qed
  qed
  have 3: "\<forall>(name, count) \<in> set ?index. count = Num (occurrences rows name)"
    using v by (auto simp: s occurrences_def)
  have "\<forall>y \<in> set (object_entries ?obj). \<exists>n. snd y = Num n"
  proof
    fix y assume "y \<in> set (object_entries ?obj)"
    then have "y \<in> set ?obj"
      using mset_object_entries [of ?obj] by (metis set_mset_mset)
    then show "\<exists>n. snd y = Num n" using v [of "fst y" "snd y"] by auto
  qed
  then have 4: "sorted_wrt more_first ?index" by (rule sorted_sort_cmp)
  from 1 2 3 4 show ?thesis by blast
qed

text \<open>
  C6 fails on the code for a category whose name \<open>Object.prototype\<close> also has. One row
  tagged \<open>constructor\<close> once: the name occurs once, but the lookup
  \<open>categoryCounts[c] || 0\<close> finds the inherited function, and the entry's count is the
  function's text followed by \<open>1\<close>.
\<close>

theorem loadCategories_constructor:
  "occurrences (deref constructor_page (allCats constructor_page)) ''constructor'' = 1
   \<and> allCategoriesWithCounts (loadCategories constructor_page)
       = [(''constructor'', Str ''function Object() { [native code] }1'')]"
  by (simp add: constructor_page_def page_def deref_def tabby_def occurrences_def tags_of_def
      image_item_def loadCategories_def categoryCounts_def count_cat_def count_all_def count1_def
      get_or_zero_plus_1_def prototype_functions_def function_text_def object_entries_def
      is_array_index_def is_digit_def sort_cmp_def renderCategories_def Let_def)

subsection \<open>Swipe to close\<close>

lemma pow2_pos: "0 < pow2 k"
  by (simp add: pow2_def)

lemma round_half_even_nonneg: "0 \<le> y \<Longrightarrow> 0 \<le> round_half_even y"
proof -
  assume "0 \<le> y"
  then have "0 \<le> \<lfloor>y\<rfloor>" by simp
  then show ?thesis by (simp add: round_half_even_def Let_def)
qed

lemma fl_nonneg:
  assumes "0 \<le> x"
  shows "fl x = PInf \<or> (\<exists>r. fl x = Fin r \<and> 0 \<le> r)"
proof (cases "x = 0")
  case True
  then show ?thesis by (simp add: fl_def)
next
  case False
  with assms have pos: "0 < x" by simp
  define q where "q = pow2 (max (ilog2 \<bar>x\<bar>) (- 1022) - 52)"
  define m where "m = of_int (round_half_even (\<bar>x\<bar> / q)) * q"
  have "0 < q" by (simp add: q_def pow2_pos)
  then have "0 \<le> \<bar>x\<bar> / q" by simp
  then have "0 \<le> round_half_even (\<bar>x\<bar> / q)" by (rule round_half_even_nonneg)
  with \<open>0 < q\<close> have m: "0 \<le> m" by (simp add: m_def)
  have "fl x = (if pow2 1024 \<le> m then PInf else Fin m)"
    using pos False unfolding fl_def Let_def m_def q_def by (simp only: if_True if_False)
  with m show ?thesis by (cases "pow2 1024 \<le> m") simp_all
qed

lemma fl_finite:
  assumes "x \<noteq> 0" and "ilog2 \<bar>x\<bar> = e" and "- 1022 \<le> e"
    and "round_half_even (\<bar>x\<bar> / pow2 (e - 52)) = n"
    and "of_int n * pow2 (e - 52) < pow2 1024"
  shows "fl x = Fin (if 0 < x then of_int n * pow2 (e - 52) else - (of_int n * pow2 (e - 52)))"
proof -
  from assms(2,3) have m: "max (ilog2 \<bar>x\<bar>) (- 1022) = e" by simp
  from assms(5) have l: "\<not> pow2 1024 \<le> of_int n * pow2 (e - 52)" by simp
  show ?thesis
    unfolding fl_def Let_def m assms(4) using assms(1) l by (simp only: if_False)
qed

lemma floor_rat_numeral: "\<lfloor>(numeral a :: rat) / numeral b\<rfloor> = numeral a div numeral b"
  using floor_divide_of_int_eq [of "numeral a" "numeral b", where ?'a = rat] by simp

lemma ceiling_rat_numeral: "\<lceil>(numeral a :: rat) / numeral b\<rceil> = - (- numeral a div numeral b)"
  using ceiling_divide_eq_div [of "numeral a" "numeral b", where ?'a = rat] by simp

lemmas fl_steps = ilog2_def bits.simps pow2_def round_half_even_def Let_def
  floor_rat_numeral ceiling_rat_numeral

lemma fl_fifth: "fl (1 / 5) = Fin (3602879701896397 / 18014398509481984)"
  using fl_finite [of "1 / 5" "- 3" 7205759403792794] by (simp add: fl_steps)

lemma fl_three_halves: "fl (3 / 2) = Fin (3 / 2)"
  using fl_finite [of "3 / 2" 0 "3 * 2 ^ 51"] by (simp add: fl_steps)

lemma fl_19: "fl 19 = Fin 19"
  using fl_finite [of 19 4 "19 * 2 ^ 48"] by (simp add: fl_steps)

lemma fl_20: "fl 20 = Fin 20"
  using fl_finite [of 20 4 "20 * 2 ^ 48"] by (simp add: fl_steps)

lemma fl_21: "fl 21 = Fin 21"
  using fl_finite [of 21 4 "21 * 2 ^ 48"] by (simp add: fl_steps)

lemma fl_30: "fl 30 = Fin 30"
  using fl_finite [of 30 4 "30 * 2 ^ 48"] by (simp add: fl_steps)

lemma fl_40: "fl 40 = Fin 40"
  using fl_finite [of 40 5 "40 * 2 ^ 47"] by (simp add: fl_steps)

lemma fl_60: "fl 60 = Fin 60"
  using fl_finite [of 60 5 "60 * 2 ^ 47"] by (simp add: fl_steps)

lemma fl_100: "fl 100 = Fin 100"
  using fl_finite [of 100 6 "100 * 2 ^ 46"] by (simp add: fl_steps)

lemma fl_393: "fl 393 = Fin 393"
  using fl_finite [of 393 8 "393 * 2 ^ 44"] by (simp add: fl_steps)

lemma swipe_threshold_100: "swipe_threshold 100 = Fin 20"
  using fl_finite [of "100 * (3602879701896397 / 18014398509481984)" 4 "20 * 2 ^ 48"]
  by (simp add: swipe_threshold_def js_times_def fl_100 fl_fifth) (simp add: fl_steps)

lemma swipe_threshold_393: "swipe_threshold 393 = Fin (5530983292364391 / 70368744177664)"
  using fl_finite [of "393 * (3602879701896397 / 18014398509481984)" 6 5530983292364391]
  by (simp add: swipe_threshold_def js_times_def fl_393 fl_fifth) (simp add: fl_steps)


lemma fl_zero: "fl 0 = Fin 0"
  by (simp add: fl_def)

lemma js_times_Fin: "js_times (Fin a) (Fin b) = fl (a * b)"
  by (simp add: js_times_def)

lemma js_times_not_Fin: "x = PInf \<or> y = PInf \<Longrightarrow> js_times x y \<noteq> Fin t"
  by (auto simp: js_times_def split: double.splits)

lemma swipe_threshold_nonneg:
  assumes "swipe_threshold width = Fin t"
  shows "0 \<le> t"
proof -
  have w: "fl (of_nat width) = PInf \<or> (\<exists>a. fl (of_nat width) = Fin a \<and> 0 \<le> a)"
    by (rule fl_nonneg) simp
  have c: "fl (20 / 100) = PInf \<or> (\<exists>c. fl (20 / 100) = Fin c \<and> 0 \<le> c)"
    by (rule fl_nonneg) simp
  from assms have "fl (of_nat width) \<noteq> PInf" "fl (20 / 100) \<noteq> PInf"
    unfolding swipe_threshold_def using js_times_not_Fin by blast+
  with w c obtain a c where a: "fl (of_nat width) = Fin a" "0 \<le> a"
    and c: "fl (20 / 100) = Fin c" "0 \<le> c" by blast
  from assms have "fl (a * c) = Fin t"
    unfolding swipe_threshold_def a(1) c(1) js_times_Fin .
  moreover from a(2) c(2) have "0 \<le> a * c" by simp
  ultimately show ?thesis using fl_nonneg [of "a * c"] by auto
qed

lemma touch_gesture:
  "touchend [t1] (touchstart [t0] s) =
     (let s1 = s\<lparr>startX := clientX t0, startY := clientY t0, tracking := False\<rparr>
      in if swipe_closes (innerWidth s) (js_minus (clientX t1) (clientX t0))
              (js_minus (clientY t1) (clientY t0))
         then closeModal None s1 else s1)"
  by (simp add: touchend_def touchstart_def Let_def)

lemma closeModal_closes: "\<not> catModal_active (closeModal None s)"
  by (simp add: closeModal_def)

lemma gesture_closes_iff:
  assumes "catModal_active s"
  shows "\<not> catModal_active (touchend [t1] (touchstart [t0] s)) \<longleftrightarrow>
           swipe_closes (innerWidth s) (js_minus (clientX t1) (clientX t0))
             (js_minus (clientY t1) (clientY t0))"
  using assms by (simp add: touch_gesture Let_def closeModal_closes)

text \<open>
  C4, as the code has it. With the modal open, a one-finger gesture from \<open>t0\<close> to
  \<open>t1\<close> closes it exactly when, in the double arithmetic of the handler, the
  displacement \<open>dx\<close> is greater than \<open>innerWidth * 0.20\<close> and \<open>Math.abs(dx)\<close> is
  strictly greater than \<open>Math.abs(dy) * 1.5\<close>. When these numbers are finite, that is
  \<open>t < a\<close> and \<open>m < |a|\<close> for the rounded displacement \<open>a\<close>, threshold \<open>t\<close> and
  product \<open>m\<close>. A gesture whose computed \<open>dx\<close> is the threshold plus one, with no
  vertical movement, closes; one whose computed \<open>dx\<close> is the threshold minus one does
  not.
\<close>

theorem swipe_closes_modal:
  assumes "catModal_active s"
  shows "(\<not> catModal_active (touchend [t1] (touchstart [t0] s)) \<longleftrightarrow>
            js_gt (js_minus (clientX t1) (clientX t0)) (swipe_threshold (innerWidth s))
            \<and> js_gt (js_abs (js_minus (clientX t1) (clientX t0)))
                 (js_times (js_abs (js_minus (clientY t1) (clientY t0))) (fl (15 / 10))))
     \<and> (\<forall>a b t m. js_minus (clientX t1) (clientX t0) = Fin a
            \<and> js_minus (clientY t1) (clientY t0) = Fin b
            \<and> swipe_threshold (innerWidth s) = Fin t
            \<and> js_times (Fin \<bar>b\<bar>) (fl (15 / 10)) = Fin m
          \<longrightarrow> (\<not> catModal_active (touchend [t1] (touchstart [t0] s)) \<longleftrightarrow> t < a \<and> m < \<bar>a\<bar>))
     \<and> (\<forall>t. swipe_threshold (innerWidth s) = Fin t
            \<and> js_minus (clientX t1) (clientX t0) = Fin (t + 1) \<and> clientY t1 = clientY t0
          \<longrightarrow> \<not> catModal_active (touchend [t1] (touchstart [t0] s)))
     \<and> (\<forall>t. swipe_threshold (innerWidth s) = Fin t
            \<and> js_minus (clientX t1) (clientX t0) = Fin (t - 1)
          \<longrightarrow> catModal_active (touchend [t1] (touchstart [t0] s)))"
proof -
  define dx where "dx = js_minus (clientX t1) (clientX t0)"
  define dy where "dy = js_minus (clientY t1) (clientY t0)"
  define th where "th = swipe_threshold (innerWidth s)"
  define closed where "closed = (\<not> catModal_active (touchend [t1] (touchstart [t0] s)))"
  have eq: "closed \<longleftrightarrow> js_gt dx th \<and> js_gt (js_abs dx) (js_times (js_abs dy) (fl (15 / 10)))"
    unfolding closed_def dx_def dy_def th_def gesture_closes_iff [OF assms]
    by (auto simp: swipe_closes_def Let_def)
  have fin: "closed \<longleftrightarrow> t < a \<and> m < \<bar>a\<bar>"
    if "dx = Fin a" "dy = Fin b" "th = Fin t" "js_times (Fin \<bar>b\<bar>) (fl (15 / 10)) = Fin m"
    for a b t m
    using that by (simp add: eq js_abs_def)
  have up: "closed" if "th = Fin t" "dx = Fin (t + 1)" "clientY t1 = clientY t0" for t
  proof -
    from that(1) have "0 \<le> t" unfolding th_def by (rule swipe_threshold_nonneg)
    moreover from that(3) have "dy = Fin 0" by (simp add: dy_def js_minus_def fl_zero)
    moreover have "js_times (Fin 0) (fl (15 / 10)) = Fin 0"
      by (simp add: fl_three_halves js_times_Fin fl_zero)
    ultimately show ?thesis using that(1,2) by (simp add: eq js_abs_def)
  qed
  have down: "\<not> closed" if "th = Fin t" "dx = Fin (t - 1)" for t
    using that by (simp add: eq)
  from eq fin up down show ?thesis
    unfolding closed_def dx_def dy_def th_def by blast
qed

theorem swipe_closes_modal_witness:
  "\<not> catModal_active (touchend [finger 31 50] (touchstart [finger 10 50] (page\<lparr>catModal_active := True\<rparr>)))
   \<and> catModal_active (touchend [finger 29 50] (touchstart [finger 10 50] (page\<lparr>catModal_active := True\<rparr>)))
   \<and> catModal_active (touchend [finger 50 90] (touchstart [finger 10 50] (page\<lparr>catModal_active := True\<rparr>)))"
proof -
  have w: "innerWidth (page\<lparr>catModal_active := True\<rparr>) = 100"
    "catModal_active (page\<lparr>catModal_active := True\<rparr>)"
    by (simp_all add: page_def)
  have d: "js_minus 31 10 = Fin (20 + 1)" "js_minus 29 10 = Fin (20 - 1)" "js_minus 50 50 = Fin 0"
    "js_minus 50 10 = Fin 40" "js_minus 90 50 = Fin 40"
    by (simp_all add: js_minus_def fl_21 fl_19 fl_40 fl_zero)
  from swipe_closes_modal [OF w(2), of "finger 31 50" "finger 10 50"]
    swipe_closes_modal [OF w(2), of "finger 29 50" "finger 10 50"]
    swipe_closes_modal [OF w(2), of "finger 50 90" "finger 10 50"]
  show ?thesis
    unfolding w(1) swipe_threshold_100
    by (simp add: finger_def d fl_three_halves js_times_Fin fl_60 fl_zero js_abs_def)
qed

text \<open>
  C4 as stated, with a factor of at least 1.5, fails on the boundary: on a viewport 100
  wide, a swipe of 30 to the right and 20 down (all numbers exact in doubles) dominates
  by exactly 1.5 and is longer than the threshold of 20, yet the modal stays open.
\<close>

theorem swipe_boundary_counterexample:
  "spec_swipe_closes 100 (40 - 10) (70 - 50)
   \<and> js_minus 40 10 = Fin (40 - 10) \<and> js_minus 70 50 = Fin (70 - 50)
   \<and> catModal_active (touchend [finger 40 70] (touchstart [finger 10 50] (page\<lparr>catModal_active := True\<rparr>)))"
proof -
  have "innerWidth (page\<lparr>catModal_active := True\<rparr>) = 100" by (simp add: page_def)
  then have "\<not> swipe_closes (innerWidth (page\<lparr>catModal_active := True\<rparr>)) (js_minus 40 10) (js_minus 70 50)"
    by (simp add: swipe_closes_def swipe_threshold_100 js_minus_def fl_30 fl_20 js_abs_def
        fl_three_halves js_times_Fin)
  then have "catModal_active (touchend [finger 40 70] (touchstart [finger 10 50] (page\<lparr>catModal_active := True\<rparr>)))"
    by (simp add: touch_gesture finger_def Let_def page_def)
  then show ?thesis
    by (simp add: spec_swipe_closes_def js_minus_def fl_30 fl_20)
qed

text \<open>
  Two gestures that exact arithmetic would let close and the rounded one does not: a
  displacement equal to the rounded threshold on a viewport 393 wide, and a gesture from
  the double next to 0.1 to the double next to 20.1 on a viewport 100 wide.
\<close>

lemma swipe_at_rounded_threshold:
  "393 * (20 / 100) < (5530983292364391 / 70368744177664 :: rat)
   \<and> catModal_active
        (touchend [finger (5530983292364391 / 70368744177664) 0]
           (touchstart [finger 0 0] (page\<lparr>catModal_active := True, innerWidth := 393\<rparr>)))"
proof -
  have v: "fl (5530983292364391 / 70368744177664) = Fin (5530983292364391 / 70368744177664)"
    using fl_finite [of "5530983292364391 / 70368744177664" 6 5530983292364391]
    by (simp add: fl_steps)
  have "\<not> swipe_closes 393 (js_minus (5530983292364391 / 70368744177664) 0) (js_minus 0 0)"
    by (simp add: swipe_closes_def swipe_threshold_393 js_minus_def v)
  then show ?thesis
    by (simp add: touch_gesture finger_def Let_def page_def)
qed

lemma swipe_rounded_difference:
  "20 < (2828823515942093 / 140737488355328 - 3602879701896397 / 36028797018963968 :: rat)
   \<and> js_minus (2828823515942093 / 140737488355328) (3602879701896397 / 36028797018963968) = Fin 20
   \<and> catModal_active
        (touchend [finger (2828823515942093 / 140737488355328) 0]
           (touchstart [finger (3602879701896397 / 36028797018963968) 0]
              (page\<lparr>catModal_active := True\<rparr>)))"
proof -
  have v: "js_minus (2828823515942093 / 140737488355328) (3602879701896397 / 36028797018963968) = Fin 20"
    unfolding js_minus_def
    using fl_finite [of "2828823515942093 / 140737488355328 - 3602879701896397 / 36028797018963968"
        4 "20 * 2 ^ 48"]
    by (simp add: fl_steps)
  have "innerWidth (page\<lparr>catModal_active := True\<rparr>) = 100" by (simp add: page_def)
  then have "\<not> swipe_closes (innerWidth (page\<lparr>catModal_active := True\<rparr>))
          (js_minus (2828823515942093 / 140737488355328) (3602879701896397 / 36028797018963968))
          (js_minus 0 0)"
    unfolding v by (simp add: swipe_closes_def swipe_threshold_100)
  then have "catModal_active
        (touchend [finger (2828823515942093 / 140737488355328) 0]
           (touchstart [finger (3602879701896397 / 36028797018963968) 0]
              (page\<lparr>catModal_active := True\<rparr>)))"
    by (simp add: touch_gesture finger_def Let_def page_def)
  with v show ?thesis by simp
qed

end
